theory Spec2Isabelle
  imports Complex_Main "HOL-Library.Sublist" "HOL-Library.AList"
begin

section \<open>JavaScript values used by the executor\<close>

text \<open>
  Strings are \<open>string\<close>; an absent value (\<open>undefined\<close> or \<open>null\<close>) is \<open>None\<close>.
  A string is truthy when it is present and non-empty, a number when it is present and
  non-zero.  \<open>a || b\<close> is \<open>a\<close> when \<open>a\<close> is truthy and \<open>b\<close> otherwise.
\<close>

definition truthy :: "string option \<Rightarrow> bool" where
  "truthy v = (case v of None \<Rightarrow> False | Some s \<Rightarrow> s \<noteq> [])"

definition truthy_num :: "nat option \<Rightarrow> bool" where
  "truthy_num v = (case v of None \<Rightarrow> False | Some n \<Rightarrow> n \<noteq> 0)"

definition js_or :: "string option \<Rightarrow> string option \<Rightarrow> string option" where
  "js_or a b = (if truthy a then a else b)"

definition str_or :: "string option \<Rightarrow> string \<Rightarrow> string" where
  "str_or a d = (case a of None \<Rightarrow> d | Some s \<Rightarrow> if s \<noteq> [] then s else d)"

definition num_or :: "nat option \<Rightarrow> nat \<Rightarrow> nat" where
  "num_or a d = (case a of None \<Rightarrow> d | Some n \<Rightarrow> if n \<noteq> 0 then n else d)"

text \<open>\<open>String.prototype.includes\<close>: the pattern occurs as a contiguous substring.\<close>

fun str_includes :: "string \<Rightarrow> string \<Rightarrow> bool" where
  "str_includes [] p = (p = [])"
| "str_includes (c # cs) p = (prefix p (c # cs) \<or> str_includes cs p)"

text \<open>Template literals print a number in decimal.\<close>

definition digit_char :: "nat \<Rightarrow> char" where
  "digit_char d = ''0123456789'' ! d"

function show_nat :: "nat \<Rightarrow> string" where
  "show_nat n = (if n < 10 then [digit_char n] else show_nat (n div 10) @ [digit_char (n mod 10)])"
  by pat_completeness auto
termination
  by (relation "measure (\<lambda>n. n)") auto

declare show_nat.simps [simp del]

text \<open>What a \<open>throw\<close> carries: the error's \<open>name\<close> and its \<open>message\<close>.\<close>

record js_error =
  err_name :: string
  err_message :: string

definition Error :: "string \<Rightarrow> js_error" where
  "Error msg = \<lparr>err_name = ''Error'', err_message = msg\<rparr>"

section \<open>Type definitions (types.ts)\<close>

datatype wait_for = WaitMs nat | WaitSelector string

definition truthy_wait :: "wait_for option \<Rightarrow> bool" where
  "truthy_wait w = (case w of None \<Rightarrow> False | Some (WaitMs n) \<Rightarrow> n \<noteq> 0
                     | Some (WaitSelector s) \<Rightarrow> s \<noteq> [])"

record ScrapeOptions =
  so_cookies :: "string option"
  so_headers :: "(string \<times> string) list option"
  so_waitFor :: "wait_for option"
  so_timeout :: "nat option"

record location =
  city :: string
  latitude :: real
  longitude :: real

datatype frequency = Hourly | Daily | Every_3_days | Weekly

text \<open>
  A row of \<open>scouts\<close>.  The text columns are strings; a null column is read as the empty
  string and a null \<open>search_queries\<close> as the empty list (both falsy, which is all the
  executor asks of them).  \<open>consecutive_failures\<close> is a count.
\<close>

record Scout =
  scout_id :: string
  user_id :: string
  title :: string
  description :: string
  goal :: string
  search_queries :: "string list"
  scout_location :: "location option"
  scout_frequency :: "frequency option"
  is_active :: bool
  last_run_at :: "nat option"
  consecutive_failures :: nat
  scrape_options :: "ScrapeOptions option"

datatype FirecrawlKeyStatus = Pending | Active | Fallback | KeyFailed | Invalid

record FirecrawlKeyResult =
  apiKey :: "string option"
  usedFallback :: bool
  fallbackReason :: "string option"

datatype task_status = TS_completed | TS_partial | TS_not_found | TS_insufficient_data

record ScoutResponse =
  taskCompleted :: bool
  taskStatus :: task_status
  response :: string

section \<open>Firecrawl tools (tools.ts)\<close>

record FirecrawlOptions =
  fo_headers :: "(string \<times> string) list option"
  fo_cookies :: "string option"
  fo_waitFor :: "wait_for option"
  fo_timeout :: "nat option"

text \<open>The parsed arguments of a tool call (\<open>args: any\<close>): the fields the tools read.\<close>

record tool_args =
  arg_query :: "string option"
  arg_url :: "string option"
  arg_limit :: "nat option"
  arg_tbs :: "string option"

text \<open>
  What \<open>await fetch(...)\<close> followed by reading the body can do: the 60-second timer
  aborts it (an \<open>AbortError\<close>, with the runtime's message), the transport fails (an error with a message), the
  response is not ok (status, status text, body text), the body is not JSON
  (\<open>response.json()\<close> rejects), or the body is delivered.
\<close>

datatype 'a fetch_result =
    FetchAborted string
  | FetchFailed js_error
  | HttpNotOk nat string string
  | HttpBadBody js_error
  | HttpOk 'a

definition AbortError :: "string \<Rightarrow> js_error" where
  "AbortError msg = \<lparr>err_name = ''AbortError'', err_message = msg\<rparr>"

text \<open>
  \<open>{...options.headers, ...(options.cookies && {"Cookie": options.cookies})}\<close>: the
  headers, with the Cookie entry written over them when the cookie string is truthy.
\<close>

definition merged_headers :: "FirecrawlOptions \<Rightarrow> (string \<times> string) list" where
  "merged_headers opts =
     (let hs = (case fo_headers opts of None \<Rightarrow> [] | Some h \<Rightarrow> h)
      in case fo_cookies opts of
           None \<Rightarrow> hs
         | Some c \<Rightarrow> if c \<noteq> [] then AList.update ''Cookie'' c hs else hs)"

definition payload_headers :: "FirecrawlOptions option \<Rightarrow> (string \<times> string) list option" where
  "payload_headers options =
     (case options of
        None \<Rightarrow> None
      | Some opts \<Rightarrow>
          if fo_headers opts \<noteq> None \<or> truthy (fo_cookies opts)
          then Some (merged_headers opts) else None)"

definition payload_waitFor :: "FirecrawlOptions option \<Rightarrow> wait_for option" where
  "payload_waitFor options =
     (case options of
        None \<Rightarrow> None
      | Some opts \<Rightarrow> if truthy_wait (fo_waitFor opts) then fo_waitFor opts else None)"

subsection \<open>executeSearchTool\<close>

record search_payload =
  sp_query :: "string option"
  sp_limit :: nat
  sp_ignoreInvalidURLs :: bool
  sp_maxAge :: nat
  sp_tbs :: "string option"
  sp_headers :: "(string \<times> string) list option"
  sp_waitFor :: "wait_for option"
  sp_location :: "string option"
  sp_country :: "string option"

record web_item =
  item_title :: "string option"
  item_url :: string
  item_description :: "string option"
  item_publishedTime :: "string option"
  item_favicon :: "string option"

record search_item =
  res_title :: string
  res_url :: string
  res_description :: string
  res_markdown :: string
  res_publishedTime :: "string option"
  res_favicon :: "string option"

record search_ok =
  sr_query :: "string option"
  sr_count :: nat
  sr_results :: "search_item list"
  sr_searchResults :: "search_item list"
  sr_filteredCount :: nat
  sr_maxAge :: nat
  sr_location :: "string option"
  sr_country :: "string option"
  sr_tbs :: "string option"

text \<open>
  The value \<open>executeSearchTool\<close> returns: the result object, or
  \<open>{error, query, results: []}\<close> (the list is kept as a field so that its being empty is
  a fact about the function).
\<close>

datatype search_output =
    SearchOk search_ok
  | SearchErr string "string option" "search_item list"

definition searchPayload ::
  "tool_args \<Rightarrow> string option \<Rightarrow> nat option \<Rightarrow> FirecrawlOptions option \<Rightarrow> search_payload" where
  "searchPayload args location maxAge options =
     \<lparr>sp_query = arg_query args,
      sp_limit = num_or (arg_limit args) 5,
      sp_ignoreInvalidURLs = True,
      sp_maxAge = num_or maxAge 3600000,
      sp_tbs = (if truthy (arg_tbs args) then arg_tbs args else None),
      sp_headers = payload_headers options,
      sp_waitFor = payload_waitFor options,
      sp_location =
        (case location of
           None \<Rightarrow> None
         | Some l \<Rightarrow>
             if l = [] then None
             else Some (if str_includes l '','' then l else l @ '',United States'')),
      sp_country = (if truthy location then Some ''US'' else None)\<rparr>"

definition mapItem :: "web_item \<Rightarrow> search_item" where
  "mapItem item =
     \<lparr>res_title = str_or (item_title item) (item_url item),
      res_url = item_url item,
      res_description = str_or (item_description item) [],
      res_markdown = str_or (item_description item) [],
      res_publishedTime = item_publishedTime item,
      res_favicon = (if truthy (item_favicon item) then item_favicon item else None)\<rparr>"

text \<open>
  The body of the \<open>try\<close> block: \<open>Inl\<close> is what it throws.  \<open>isBlacklistedDomain\<close>
  (constants.ts) and \<open>fetch\<close> are parameters; \<open>fetch\<close> is given the API key and the
  payload, and answers with what the request does.  The response body is
  \<open>data.data?.web\<close>, absent when the field is.
\<close>

definition searchTry ::
  "(string \<Rightarrow> bool) \<Rightarrow> (string \<Rightarrow> search_payload \<Rightarrow> web_item list option fetch_result) \<Rightarrow>
   tool_args \<Rightarrow> string \<Rightarrow> string option \<Rightarrow> nat option \<Rightarrow> FirecrawlOptions option \<Rightarrow>
   js_error + search_ok" where
  "searchTry isBlacklistedDomain fetch args key location maxAge options =
     (let payload = searchPayload args location maxAge options in
      case fetch key payload of
        FetchAborted msg \<Rightarrow> Inl (AbortError msg)
      | FetchFailed e \<Rightarrow> Inl e
      | HttpNotOk status statusText errorText \<Rightarrow>
          Inl (Error (''Firecrawl search failed: '' @ show_nat status @ '' '' @ statusText
                      @ '' - '' @ errorText))
      | HttpBadBody e \<Rightarrow> Inl e
      | HttpOk web \<Rightarrow>
          (let webResults = (case web of None \<Rightarrow> [] | Some ws \<Rightarrow> ws);
               allResults = map mapItem webResults;
               results = filter (\<lambda>item. \<not> isBlacklistedDomain (res_url item)) allResults;
               filteredCount = length allResults - length results
           in Inr \<lparr>sr_query = arg_query args,
                   sr_count = length results,
                   sr_results = results,
                   sr_searchResults = results,
                   sr_filteredCount = filteredCount,
                   sr_maxAge = sp_maxAge payload,
                   sr_location = sp_location payload,
                   sr_country = sp_country payload,
                   sr_tbs = sp_tbs payload\<rparr>))"

definition executeSearchTool ::
  "(string \<Rightarrow> bool) \<Rightarrow> (string \<Rightarrow> search_payload \<Rightarrow> web_item list option fetch_result) \<Rightarrow>
   tool_args \<Rightarrow> string \<Rightarrow> string option \<Rightarrow> nat option \<Rightarrow> FirecrawlOptions option \<Rightarrow>
   search_output" where
  "executeSearchTool isBlacklistedDomain fetch args key location maxAge options =
     (case searchTry isBlacklistedDomain fetch args key location maxAge options of
        Inr r \<Rightarrow> SearchOk r
      | Inl e \<Rightarrow>
          SearchErr (if err_name e = ''AbortError''
                     then ''Search request timed out after 60 seconds''
                     else err_message e)
                    (arg_query args) [])"

subsection \<open>executeScrapeTool\<close>

record scrape_payload =
  scp_url :: "string option"
  scp_maxAge :: nat
  scp_headers :: "(string \<times> string) list option"
  scp_waitFor :: "wait_for option"
  scp_timeout :: "nat option"

record scrape_metadata =
  md_title :: "string option"
  md_ogImage :: "string option"
  md_favicon :: "string option"

record scraped_data =
  sd_markdown :: "string option"
  sd_metadata :: "scrape_metadata option"
  sd_screenshot :: "string option"

record scrape_ok =
  sc_url :: "string option"
  sc_title :: "string option"
  sc_content :: string
  sc_favicon :: "string option"
  sc_screenshot :: "string option"
  sc_maxAge :: nat

datatype scrape_output =
    ScrapeOk scrape_ok
  | ScrapeErr string "string option"

definition scrapePayload ::
  "tool_args \<Rightarrow> nat option \<Rightarrow> FirecrawlOptions option \<Rightarrow> scrape_payload" where
  "scrapePayload args maxAge options =
     \<lparr>scp_url = arg_url args,
      scp_maxAge = num_or maxAge 3600000,
      scp_headers = payload_headers options,
      scp_waitFor = payload_waitFor options,
      scp_timeout =
        (case options of None \<Rightarrow> None
         | Some opts \<Rightarrow> if truthy_num (fo_timeout opts) then fo_timeout opts else None)\<rparr>"

definition emptyScraped :: scraped_data where
  "emptyScraped = \<lparr>sd_markdown = None, sd_metadata = None, sd_screenshot = None\<rparr>"

definition scrapeTry ::
  "(string \<Rightarrow> scrape_payload \<Rightarrow> scraped_data option fetch_result) \<Rightarrow>
   tool_args \<Rightarrow> string \<Rightarrow> nat option \<Rightarrow> FirecrawlOptions option \<Rightarrow> js_error + scrape_ok" where
  "scrapeTry fetch args key maxAge options =
     (let payload = scrapePayload args maxAge options in
      case fetch key payload of
        FetchAborted msg \<Rightarrow> Inl (AbortError msg)
      | FetchFailed e \<Rightarrow> Inl e
      | HttpNotOk status statusText errorText \<Rightarrow>
          Inl (Error (''Firecrawl scrape failed: '' @ show_nat status @ '' '' @ statusText
                      @ '' - '' @ errorText))
      | HttpBadBody e \<Rightarrow> Inl e
      | HttpOk d \<Rightarrow>
          (let scrapedData = (case d of None \<Rightarrow> emptyScraped | Some sd \<Rightarrow> sd);
               content = take 2000 (case sd_markdown scrapedData of None \<Rightarrow> [] | Some m \<Rightarrow> m);
               mtitle = (case sd_metadata scrapedData of None \<Rightarrow> None | Some m \<Rightarrow> md_title m);
               ogImage = (case sd_metadata scrapedData of None \<Rightarrow> None | Some m \<Rightarrow> md_ogImage m);
               favicon = (case sd_metadata scrapedData of None \<Rightarrow> None | Some m \<Rightarrow> md_favicon m)
           in Inr \<lparr>sc_url = arg_url args,
                   sc_title = js_or mtitle (arg_url args),
                   sc_content = content,
                   sc_favicon = (if truthy ogImage then ogImage
                                 else if truthy favicon then favicon else None),
                   sc_screenshot =
                     (if truthy (sd_screenshot scrapedData) then sd_screenshot scrapedData
                      else None),
                   sc_maxAge = scp_maxAge payload\<rparr>))"

definition executeScrapeTool ::
  "(string \<Rightarrow> scrape_payload \<Rightarrow> scraped_data option fetch_result) \<Rightarrow>
   tool_args \<Rightarrow> string \<Rightarrow> nat option \<Rightarrow> FirecrawlOptions option \<Rightarrow> scrape_output" where
  "executeScrapeTool fetch args key maxAge options =
     (case scrapeTry fetch args key maxAge options of
        Inr r \<Rightarrow> ScrapeOk r
      | Inl e \<Rightarrow>
          ScrapeErr (if err_name e = ''AbortError''
                     then ''Scrape request timed out after 60 seconds''
                     else err_message e)
                    (arg_url args))"

section \<open>OpenAI configuration (openai-config.ts)\<close>

record OpenAIConfig =
  cfg_baseUrl :: string
  cfg_apiKey :: string
  chatModel :: string
  embeddingModel :: string
  cfg_headers :: "(string \<times> string) list"
  isAzure :: bool

text \<open>\<open>azureEndpoint.replace(/\/$/, "")\<close>: one trailing slash is removed.\<close>

definition normalizeEndpoint :: "string \<Rightarrow> string" where
  "normalizeEndpoint ep = (if ep \<noteq> [] \<and> last ep = CHR ''/'' then butlast ep else ep)"

text \<open>\<open>getenv\<close> is \<open>Deno.env.get\<close>.  \<open>Inl\<close> is the error thrown when no key is configured.\<close>

definition getOpenAIConfig :: "(string \<Rightarrow> string option) \<Rightarrow> js_error + OpenAIConfig" where
  "getOpenAIConfig getenv =
     (let azureApiKey = getenv ''AZURE_OPENAI_API_KEY'';
          azureEndpoint = getenv ''AZURE_OPENAI_ENDPOINT''
      in if truthy azureApiKey \<and> truthy azureEndpoint
         then Inr \<lparr>cfg_baseUrl = normalizeEndpoint (str_or azureEndpoint []),
                   cfg_apiKey = str_or azureApiKey [],
                   chatModel = str_or (getenv ''AZURE_OPENAI_CHAT_DEPLOYMENT'') ''gpt-4o'',
                   embeddingModel = str_or (getenv ''AZURE_OPENAI_EMBEDDING_DEPLOYMENT'')
                                      ''text-embedding-3-small'',
                   cfg_headers = [(''api-key'', str_or azureApiKey []),
                                  (''Content-Type'', ''application/json'')],
                   isAzure = True\<rparr>
         else (let openaiApiKey = getenv ''OPENAI_API_KEY''
               in if \<not> truthy openaiApiKey
                  then Inl (Error (''OpenAI API key not configured. Set either OPENAI_API_KEY for OpenAI or ''
                                   @ ''AZURE_OPENAI_API_KEY and AZURE_OPENAI_ENDPOINT for Azure OpenAI.''))
                  else Inr \<lparr>cfg_baseUrl = ''https://api.openai.com'',
                            cfg_apiKey = str_or openaiApiKey [],
                            chatModel = ''gpt-4o'',
                            embeddingModel = ''text-embedding-3-small'',
                            cfg_headers = [(''Authorization'', ''Bearer '' @ str_or openaiApiKey []),
                                           (''Content-Type'', ''application/json'')],
                            isAzure = False\<rparr>))"

section \<open>The store and the world around a run\<close>

datatype run_status = Running | Completed | Failed

text \<open>
  A row of \<open>scout_executions\<close>.  Execution ids are numbers here (the database issues a
  fresh one at insert); times are milliseconds.  Embedding components are real numbers,
  an idealisation of the doubles the program computes with.
\<close>

record execution =
  ex_id :: nat
  ex_scout_id :: string
  ex_status :: run_status
  ex_created_at :: nat
  ex_completed_at :: "nat option"
  ex_error_message :: "string option"
  ex_results_summary :: "ScoutResponse option"
  ex_summary_text :: "string option"
  ex_summary_embedding :: "real list option"

text \<open>
  What a tool call leaves in \<open>toolResult\<close>: the value of a tool, or the object the
  executor's own \<open>catch\<close> builds, \<open>{error, query}\<close>.  \<open>None\<close> is \<open>undefined\<close> (the tool name
  was neither of the two).
\<close>

datatype tool_result =
    SearchOut search_output
  | ScrapeOut scrape_output
  | CaughtErr string "string option"

datatype step_type = Tool_call | Search | Scrape | Summarize

datatype step_data =
    InitData string string string
  | ArgsData tool_args
  | ResultData "tool_result option"
  | ResponseData ScoutResponse

record step =
  st_execution_id :: nat
  st_step_number :: nat
  st_step_type :: step_type
  st_description :: string
  st_input_data :: "step_data option"
  st_output_data :: "step_data option"
  st_error_message :: "string option"
  st_status :: run_status

record CredentialRecord =
  cred_user_id :: string
  cred_key :: "string option"
  cred_status :: FirecrawlKeyStatus
  cred_invalid_reason :: "string option"

record usage_log =
  ul_userId :: string
  ul_scoutId :: string
  ul_executionId :: nat
  ul_usedFallback :: bool
  ul_fallbackReason :: "string option"
  ul_apiCallsCount :: nat

text \<open>
  The tables the executor reads and writes, the emails handed to the sender, and the
  number of times the clock has been read so far.
\<close>

record world =
  scouts :: "Scout list"
  scout_executions :: "execution list"
  scout_execution_steps :: "step list"
  user_preferences :: "CredentialRecord list"
  firecrawl_usage :: "usage_log list"
  emails_sent :: "(string \<times> ScoutResponse) list"
  clock_reads :: nat

record tool_call =
  tc_id :: string
  tc_name :: string
  tc_arguments :: "js_error + tool_args"

record assistant_message =
  am_content :: "string option"
  am_tool_calls :: "tool_call list"

datatype message =
    SystemMsg string
  | UserMsg string
  | AssistantMsg assistant_message
  | ToolMsg string string

text \<open>
  Everything outside the executor, as functions it is run against: the process
  environment, the clock (\<open>clock k\<close> is the value of the \<open>k\<close>-th read), the chat, summary
  and embedding endpoints and the two Firecrawl endpoints (the chat endpoint is asked
  with the loop count and the conversation, a Firecrawl endpoint with the step number,
  the key and the payload; \<open>tc_arguments\<close> of a tool call is what \<open>JSON.parse\<close> makes of its
  argument string, \<open>Inl\<close> when it throws), \<open>isBlacklistedDomain\<close> and \<open>getMaxAge\<close> of
  constants.ts, \<open>JSON.parse\<close> of the final content (\<open>None\<close> when it throws) and
  \<open>JSON.stringify\<close>, the two prompt templates, the two number and date formatters, and
  whether the insert of the execution row fails.
\<close>

record env =
  getenv :: "string \<Rightarrow> string option"
  clock :: "nat \<Rightarrow> nat"
  chatFetch :: "nat \<Rightarrow> message list \<Rightarrow> assistant_message fetch_result"
  summaryFetch :: "message list \<Rightarrow> string fetch_result"
  embeddingFetch :: "string \<Rightarrow> real list fetch_result"
  searchFetch :: "nat \<Rightarrow> string \<Rightarrow> search_payload \<Rightarrow> web_item list option fetch_result"
  scrapeFetch :: "nat \<Rightarrow> string \<Rightarrow> scrape_payload \<Rightarrow> scraped_data option fetch_result"
  isBlacklistedDomain :: "string \<Rightarrow> bool"
  getMaxAge :: "frequency option \<Rightarrow> nat"
  JSON_parse :: "string \<Rightarrow> ScoutResponse option"
  JSON_stringify :: "tool_result option \<Rightarrow> string"
  systemPromptFor :: "Scout \<Rightarrow> execution list \<Rightarrow> string"
  userMessageFor :: "Scout \<Rightarrow> string"
  toLocaleDateString :: "nat option \<Rightarrow> string"
  toFixed1 :: "real \<Rightarrow> string"
  insertFails :: bool

definition now :: "env \<Rightarrow> world \<Rightarrow> nat" where
  "now e w = clock e (clock_reads w)"

definition tick :: "world \<Rightarrow> world" where
  "tick w = w\<lparr>clock_reads := Suc (clock_reads w)\<rparr>"

subsection \<open>Store operations\<close>

definition newExecutionId :: "world \<Rightarrow> nat" where
  "newExecutionId w = Suc (fold max (map ex_id (scout_executions w)) 0)"

text \<open>\<open>.from("scout_executions").insert({scout_id, status: "running"})\<close>\<close>

definition insertExecution :: "env \<Rightarrow> string \<Rightarrow> world \<Rightarrow> world" where
  "insertExecution e sid w =
     (tick w)\<lparr>scout_executions := scout_executions w @
        [\<lparr>ex_id = newExecutionId w, ex_scout_id = sid, ex_status = Running,
          ex_created_at = now e w, ex_completed_at = None, ex_error_message = None,
          ex_results_summary = None, ex_summary_text = None,
          ex_summary_embedding = None\<rparr>]\<rparr>"

text \<open>\<open>.from("scout_executions").update(fields).eq("id", executionId)\<close>\<close>

definition updateExecution :: "nat \<Rightarrow> (execution \<Rightarrow> execution) \<Rightarrow> world \<Rightarrow> world" where
  "updateExecution eid upd w =
     w\<lparr>scout_executions := map (\<lambda>x. if ex_id x = eid then upd x else x) (scout_executions w)\<rparr>"

text \<open>\<open>.from("scouts").update(fields).eq(column, value)\<close>\<close>

definition updateScouts :: "(Scout \<Rightarrow> bool) \<Rightarrow> (Scout \<Rightarrow> Scout) \<Rightarrow> world \<Rightarrow> world" where
  "updateScouts sel upd w = w\<lparr>scouts := map (\<lambda>x. if sel x then upd x else x) (scouts w)\<rparr>"

text \<open>
  Modelled from the spec: \<open>createStep\<close> and \<open>updateStep\<close> of helpers.ts, which is not among
  the sources.  The spec gives them as \<open>appendStep(execution_id, step_number, fields)\<close>
  and \<open>updateStep(execution_id, step_number, fields)\<close>: the first adds a step row, the
  second writes the given fields of the step with that execution id and number.
\<close>

definition createStep ::
  "nat \<Rightarrow> nat \<Rightarrow> step_type \<Rightarrow> string \<Rightarrow> step_data option \<Rightarrow> step_data option \<Rightarrow> run_status \<Rightarrow>
   world \<Rightarrow> world" where
  "createStep eid n ty descr input output st w =
     w\<lparr>scout_execution_steps := scout_execution_steps w @
        [\<lparr>st_execution_id = eid, st_step_number = n, st_step_type = ty,
          st_description = descr, st_input_data = input, st_output_data = output,
          st_error_message = None, st_status = st\<rparr>]\<rparr>"

definition updateStep :: "nat \<Rightarrow> nat \<Rightarrow> (step \<Rightarrow> step) \<Rightarrow> world \<Rightarrow> world" where
  "updateStep eid n upd w =
     w\<lparr>scout_execution_steps :=
        map (\<lambda>x. if st_execution_id x = eid \<and> st_step_number x = n then upd x else x)
            (scout_execution_steps w)\<rparr>"

text \<open>
  Modelled from the spec: \<open>getFirecrawlKeyForUser\<close> and \<open>markFirecrawlKeyInvalid\<close> of
  helpers.ts, which is not among the sources.  The spec's credential resolver is
  \<open>resolve(userId) \<rightarrow> {key} | err\<close> with no shared fallback key, a missing or invalid key
  giving no key; marking sets the user's key status to invalid and records the reason.
\<close>

definition getFirecrawlKeyForUser :: "world \<Rightarrow> string \<Rightarrow> FirecrawlKeyResult" where
  "getFirecrawlKeyForUser w uid =
     (case filter (\<lambda>c. cred_user_id c = uid) (user_preferences w) of
        [] \<Rightarrow> \<lparr>apiKey = None, usedFallback = False, fallbackReason = None\<rparr>
      | c # _ \<Rightarrow>
          \<lparr>apiKey = (if cred_status c = Invalid then None else cred_key c),
           usedFallback = False, fallbackReason = None\<rparr>)"

definition markFirecrawlKeyInvalid :: "string \<Rightarrow> string \<Rightarrow> world \<Rightarrow> world" where
  "markFirecrawlKeyInvalid uid reason w =
     w\<lparr>user_preferences :=
        map (\<lambda>c. if cred_user_id c = uid
                 then c\<lparr>cred_status := Invalid, cred_invalid_reason := Some reason\<rparr> else c)
            (user_preferences w)\<rparr>"

text \<open>
  Modelled from the spec: \<open>sendScoutSuccessEmail\<close> of email.ts and \<open>logFirecrawlUsage\<close> of
  helpers.ts, which are not among the sources.  The spec's sender is
  \<open>send_success(scout, result) \<rightarrow> ok|err\<close>, whose errors do not affect the run; the call is
  recorded with the scout and the result it was given.  The usage log keeps the
  arguments of the call.
\<close>

definition sendScoutSuccessEmail :: "Scout \<Rightarrow> ScoutResponse \<Rightarrow> world \<Rightarrow> world" where
  "sendScoutSuccessEmail scout r w = w\<lparr>emails_sent := emails_sent w @ [(scout_id scout, r)]\<rparr>"

definition logFirecrawlUsage :: "usage_log \<Rightarrow> world \<Rightarrow> world" where
  "logFirecrawlUsage u w = w\<lparr>firecrawl_usage := firecrawl_usage w @ [u]\<rparr>"

text \<open>
  The query for recent findings: completed executions of the scout with a summary and an
  embedding, latest first, at most twenty.
\<close>

definition completedAt :: "execution \<Rightarrow> nat" where
  "completedAt x = (case ex_completed_at x of None \<Rightarrow> 0 | Some t \<Rightarrow> t)"

definition recentExecutions :: "world \<Rightarrow> string \<Rightarrow> execution list" where
  "recentExecutions w sid =
     take 20 (rev (sort_key completedAt
       (filter (\<lambda>x. ex_scout_id x = sid \<and> ex_status x = Completed
                     \<and> ex_summary_text x \<noteq> None \<and> ex_summary_embedding x \<noteq> None)
               (scout_executions w))))"

definition validEmbedding :: "execution \<Rightarrow> bool" where
  "validEmbedding x =
     (case ex_summary_embedding x of None \<Rightarrow> False | Some v \<Rightarrow> length v = 1536)"

definition similarExecutionsOf :: "world \<Rightarrow> string \<Rightarrow> execution list" where
  "similarExecutionsOf w sid = filter validEmbedding (recentExecutions w sid)"

section \<open>The agent (agent.ts)\<close>

subsection \<open>Cosine similarity\<close>

definition cosineSimilarity :: "real list \<Rightarrow> real list \<Rightarrow> js_error + real" where
  "cosineSimilarity vecA vecB =
     (if length vecA \<noteq> length vecB then Inl (Error ''Vectors must have the same length'')
      else (let dotProduct = (\<Sum>i\<leftarrow>[0..<length vecA]. vecA ! i * vecB ! i);
                normA = sqrt (\<Sum>i\<leftarrow>[0..<length vecA]. vecA ! i * vecA ! i);
                normB = sqrt (\<Sum>i\<leftarrow>[0..<length vecA]. vecB ! i * vecB ! i)
            in if normA = 0 \<or> normB = 0 then Inr 0
               else Inr (dotProduct / (normA * normB))))"

subsection \<open>Parsing the final message\<close>

text \<open>
  White space as \<open>trim\<close> and \<open>\s\<close> see it, for the characters of a byte string: tab, line
  feed, vertical tab, form feed, carriage return and space.
\<close>

definition is_space :: "char \<Rightarrow> bool" where
  "is_space c = (c \<in> set [CHR 0x09, CHR 0x0A, CHR 0x0B, CHR 0x0C, CHR 0x0D, CHR 0x20])"

definition trim :: "string \<Rightarrow> string" where
  "trim s = rev (dropWhile is_space (rev (dropWhile is_space s)))"

text \<open>
  \<open>s.replace(/FENCE\s*/g, '')\<close>: every occurrence of the fence, found from the left,
  is removed together with the white space that follows it.
\<close>

function removeFence :: "string \<Rightarrow> string \<Rightarrow> string" where
  "removeFence fence [] = []"
| "removeFence fence (c # cs) =
     (if fence \<noteq> [] \<and> prefix fence (c # cs)
      then removeFence fence (dropWhile is_space (drop (length fence) (c # cs)))
      else c # removeFence fence cs)"
  by pat_completeness auto
termination
proof (relation "measure (\<lambda>(fence, s). length s)")
  show "wf (measure (\<lambda>(fence, s). length s))" by simp
next
  fix fence :: string and c cs
  assume "fence \<noteq> [] \<and> prefix fence (c # cs)"
  then have "length (drop (length fence) (c # cs)) < length (c # cs)"
    by (cases fence) auto
  moreover have "length (dropWhile is_space (drop (length fence) (c # cs)))
                 \<le> length (drop (length fence) (c # cs))"
    by (rule length_dropWhile_le)
  ultimately show "((fence, dropWhile is_space (drop (length fence) (c # cs))), (fence, c # cs))
                   \<in> measure (\<lambda>(fence, s). length s)"
    by simp
next
  fix fence :: string and c cs
  show "((fence, cs), (fence, c # cs)) \<in> measure (\<lambda>(fence, s). length s)" by simp
qed

definition fence3 :: string where
  "fence3 = [CHR 0x60, CHR 0x60, CHR 0x60]"

text \<open>\<open>lastIndexOf('}')\<close> and \<open>substring(0, lastBrace + 1)\<close>.\<close>

definition truncateLastBrace :: "string \<Rightarrow> string" where
  "truncateLastBrace s =
     (if CHR ''}'' \<in> set s then rev (dropWhile (\<lambda>c. c \<noteq> CHR ''}'') (rev s)) else s)"

definition cleanJson :: "string \<Rightarrow> string" where
  "cleanJson finalContent =
     (let jsonString = trim finalContent;
          unfenced =
            (if str_includes jsonString (fence3 @ ''json'')
             then removeFence fence3 (removeFence (fence3 @ ''json'') jsonString)
             else if str_includes jsonString fence3 then removeFence fence3 jsonString
             else jsonString)
      in truncateLastBrace unfenced)"

text \<open>
  The \<open>try\<close> with its \<open>catch\<close>: \<open>finalContent.trim()\<close> throws on a null content and
  \<open>JSON.parse\<close> on a string that is not JSON; either way the default response is built.
\<close>

definition parseFinalContent :: "(string \<Rightarrow> ScoutResponse option) \<Rightarrow> string option \<Rightarrow> ScoutResponse" where
  "parseFinalContent parse finalContent =
     (case (case finalContent of None \<Rightarrow> None | Some c \<Rightarrow> parse (cleanJson c)) of
        Some r \<Rightarrow> r
      | None \<Rightarrow>
          \<lparr>taskCompleted = False, taskStatus = TS_insufficient_data,
           response = str_or finalContent ''Agent completed without structured output''\<rparr>)"

subsection \<open>Summary, embedding and duplicate detection\<close>

definition newline :: string where
  "newline = [CHR 0x0A]"

definition summaryMessages :: "Scout \<Rightarrow> ScoutResponse \<Rightarrow> message list" where
  "summaryMessages scout r =
     [SystemMsg (''You are a concise summarizer. Generate a single sentence (max 150 characters) that captures the key finding from the scout execution. ''
                 @ ''Focus on what was discovered, not the process. Be specific and include key details like names, locations, or dates if present.''),
      UserMsg (''Scout goal: '' @ goal scout @ newline @ newline @ ''Findings: '' @ response r
               @ newline @ newline
               @ ''Generate a one-sentence summary (max 150 characters) of the key discovery.'')]"

text \<open>
  The summary and then its embedding, inside one \<open>try\<close>: a failure of the first call
  leaves both null, a failure of the second leaves the summary.
\<close>

definition generateSummary :: "env \<Rightarrow> Scout \<Rightarrow> ScoutResponse \<Rightarrow> string option \<times> real list option" where
  "generateSummary e scout r =
     (if taskCompleted r
      then (case summaryFetch e (summaryMessages scout r) of
              HttpOk content \<Rightarrow>
                (case embeddingFetch e (trim content) of
                   HttpOk v \<Rightarrow> (Some (trim content), Some v)
                 | _ \<Rightarrow> (Some (trim content), None))
            | _ \<Rightarrow> (None, None))
      else (None, None))"

definition similarityThreshold :: real where
  "similarityThreshold = 85 / 100"

text \<open>
  The loop over the previous executions: the first one whose similarity reaches the
  threshold ends it (\<open>break\<close>); one that has no embedding, an embedding of another length
  than 1536 or than the current one, or whose comparison throws, is passed over.
\<close>

fun findDuplicate :: "real list \<Rightarrow> execution list \<Rightarrow> (execution \<times> real) option" where
  "findDuplicate currentEmbedding [] = None"
| "findDuplicate currentEmbedding (prevExecution # rest) =
     (case ex_summary_embedding prevExecution of
        None \<Rightarrow> findDuplicate currentEmbedding rest
      | Some prevEmbedding \<Rightarrow>
          if length prevEmbedding \<noteq> 1536 then findDuplicate currentEmbedding rest
          else if length prevEmbedding \<noteq> length currentEmbedding
          then findDuplicate currentEmbedding rest
          else (case cosineSimilarity currentEmbedding prevEmbedding of
                  Inl err \<Rightarrow> findDuplicate currentEmbedding rest
                | Inr similarity \<Rightarrow>
                    if similarity \<ge> similarityThreshold then Some (prevExecution, similarity)
                    else findDuplicate currentEmbedding rest))"

definition dquote :: string where
  "dquote = [CHR 0x22]"

definition show_opt :: "string option \<Rightarrow> string \<Rightarrow> string" where
  "show_opt v absent = (case v of None \<Rightarrow> absent | Some s \<Rightarrow> s)"

definition duplicateNote :: "env \<Rightarrow> execution \<Rightarrow> real \<Rightarrow> string" where
  "duplicateNote e prevExecution similarity =
     newline @ newline @ ''---'' @ newline
     @ ''**Note**: This finding appears very similar to a previous result from ''
     @ toLocaleDateString e (ex_completed_at prevExecution) @ '': '' @ dquote
     @ show_opt (ex_summary_text prevExecution) ''null'' @ dquote @ '' (similarity: ''
     @ toFixed1 e (similarity * 100) @ ''%)''"

definition detectDuplicate ::
  "ScoutResponse \<Rightarrow> real list option \<Rightarrow> execution list \<Rightarrow> (execution \<times> real) option" where
  "detectDuplicate r summaryEmbedding similarExecutions =
     (case summaryEmbedding of
        None \<Rightarrow> None
      | Some currentEmbedding \<Rightarrow>
          if taskCompleted r \<and> similarExecutions \<noteq> []
          then findDuplicate currentEmbedding similarExecutions else None)"

subsection \<open>The run's variables\<close>

datatype signal = Normal | Thrown js_error

text \<open>
  The variables of \<open>executeScoutAgent\<close> that outlive a statement, with the world.  The
  four variables of the final branch (\<open>scoutResponse\<close>, \<open>summaryText\<close>, \<open>summaryEmbedding\<close>,
  \<open>isDuplicate\<close>) are absent, respectively false, until that branch runs.
\<close>

record run_state =
  world :: world
  stepNumber :: nat
  loopCount :: nat
  consecutiveErrors :: nat
  continueLoop :: bool
  conversationMessages :: "message list"
  firecrawlApiCallsCount :: nat
  scoutResponse :: "ScoutResponse option"
  summaryText :: "string option"
  summaryEmbedding :: "real list option"
  isDuplicate :: bool

definition on_world :: "(world \<Rightarrow> world) \<Rightarrow> run_state \<Rightarrow> run_state" where
  "on_world f s = s\<lparr>world := f (world s)\<rparr>"

definition maxLoops :: nat where
  "maxLoops = 7"

definition maxConsecutiveErrors :: nat where
  "maxConsecutiveErrors = 3"

subsection \<open>One tool call\<close>

definition result_error :: "tool_result option \<Rightarrow> string option" where
  "result_error r =
     (case r of
        Some (SearchOut (SearchErr msg q rs)) \<Rightarrow> Some msg
      | Some (ScrapeOut (ScrapeErr msg u)) \<Rightarrow> Some msg
      | Some (CaughtErr msg q) \<Rightarrow> Some msg
      | _ \<Rightarrow> None)"

definition error_includes :: "tool_result option \<Rightarrow> string \<Rightarrow> bool" where
  "error_includes r code =
     (case result_error r of None \<Rightarrow> False | Some msg \<Rightarrow> str_includes msg code)"

definition firecrawlOptionsOf :: "Scout \<Rightarrow> FirecrawlOptions option" where
  "firecrawlOptionsOf scout =
     (case scrape_options scout of
        None \<Rightarrow> None
      | Some so \<Rightarrow> Some \<lparr>fo_headers = so_headers so, fo_cookies = so_cookies so,
                         fo_waitFor = so_waitFor so, fo_timeout = so_timeout so\<rparr>)"

definition locationToUse :: "Scout \<Rightarrow> string option" where
  "locationToUse scout =
     (case scout_location scout of
        None \<Rightarrow> None
      | Some l \<Rightarrow> if city l \<noteq> [] \<and> city l \<noteq> ''any'' then Some (city l) else None)"

text \<open>The call of the tool the model named: its value, and whether a request was made.\<close>

definition callTool ::
  "env \<Rightarrow> Scout \<Rightarrow> string \<Rightarrow> nat \<Rightarrow> nat \<Rightarrow> string \<Rightarrow> tool_args \<Rightarrow> tool_result option \<times> nat" where
  "callTool e scout key maxAgeMs stepNo toolName toolArgs =
     (if toolName = ''searchWeb''
      then (Some (SearchOut (executeSearchTool (isBlacklistedDomain e) (searchFetch e stepNo)
                    toolArgs key (locationToUse scout) (Some maxAgeMs) (firecrawlOptionsOf scout))), 1)
      else if toolName = ''scrapeWebsite''
      then (Some (ScrapeOut (executeScrapeTool (scrapeFetch e stepNo)
                    toolArgs key (Some maxAgeMs) (firecrawlOptionsOf scout))), 1)
      else (None, 0))"

definition creditsExhaustedMessage :: string where
  "creditsExhaustedMessage =
     ''Firecrawl API credits exhausted. All your scouts have been paused. Please add your own Firecrawl API key in Settings ''
     @ [CHR 0xE2, CHR 0x86, CHR 0x92] @ '' Firecrawl Integration '' @ [CHR 0xE2, CHR 0x86, CHR 0x92]
     @ '' Custom API Key. Get your key at https://www.firecrawl.dev/app/api-keys''"

text \<open>
  The inner \<open>try\<close> with its \<open>catch\<close> (the tool, the 401 check, the 402 check): the tool
  result, \<open>hasError\<close>, and the state.  The \<open>throw\<close> of the 402 branch stands inside this
  \<open>try\<close>, so this \<open>catch\<close> receives it: it replaces the tool result by
  \<open>{error: error.message, query: toolArgs.query || toolArgs.url}\<close> and sets \<open>hasError\<close>.
\<close>

definition runTool ::
  "env \<Rightarrow> Scout \<Rightarrow> string \<Rightarrow> nat \<Rightarrow> string \<Rightarrow> tool_args \<Rightarrow> run_state \<Rightarrow>
   tool_result option \<times> bool \<times> run_state" where
  "runTool e scout key maxAgeMs toolName toolArgs s =
     (let (toolResult, calls) = callTool e scout key maxAgeMs (stepNumber s) toolName toolArgs;
          s1 = s\<lparr>firecrawlApiCallsCount := firecrawlApiCallsCount s + calls\<rparr>;
          hasError = (result_error toolResult \<noteq> None);
          s2 = (if hasError \<and> error_includes toolResult ''401''
                then on_world (markFirecrawlKeyInvalid (user_id scout)
                       (''Firecrawl returned 401: '' @ show_opt (result_error toolResult) [])) s1
                else s1)
      in if hasError \<and> error_includes toolResult ''402''
         then (Some (CaughtErr creditsExhaustedMessage (js_or (arg_query toolArgs) (arg_url toolArgs))),
               True,
               on_world (markFirecrawlKeyInvalid (user_id scout)
                           ''Firecrawl returned 402: Insufficient credits. Please add your own API key in Settings.'')
                 (on_world (updateScouts (\<lambda>x. user_id x = user_id scout) (\<lambda>x. x\<lparr>is_active := False\<rparr>)) s2))
         else (toolResult, hasError, s2))"

definition isBlacklistedError :: "env \<Rightarrow> string \<Rightarrow> tool_args \<Rightarrow> bool" where
  "isBlacklistedError e toolName toolArgs =
     (toolName = ''scrapeWebsite'' \<and>
      (case arg_url toolArgs of None \<Rightarrow> False | Some u \<Rightarrow> u \<noteq> [] \<and> isBlacklistedDomain e u))"

definition tooManyErrors :: "string \<Rightarrow> js_error" where
  "tooManyErrors lastError =
     Error (''Too many consecutive tool errors ('' @ show_nat maxConsecutiveErrors
            @ ''). Last error: '' @ lastError)"

text \<open>
  The error accounting that follows the step update: \<open>Thrown\<close> is the \<open>throw\<close> on the
  third consecutive error.
\<close>

definition trackErrors ::
  "env \<Rightarrow> string \<Rightarrow> tool_args \<Rightarrow> tool_result option \<Rightarrow> bool \<Rightarrow> run_state \<Rightarrow> signal \<times> run_state" where
  "trackErrors e toolName toolArgs toolResult hasError s =
     (if hasError
      then (if \<not> isBlacklistedError e toolName toolArgs
            then (let s' = s\<lparr>consecutiveErrors := consecutiveErrors s + 1\<rparr>
                  in if consecutiveErrors s' \<ge> maxConsecutiveErrors
                     then (Thrown (tooManyErrors (show_opt (result_error toolResult) ''undefined'')), s')
                     else (Normal, s'))
            else (Normal, s))
      else (Normal, s\<lparr>consecutiveErrors := 0\<rparr>))"

text \<open>
  The body of \<open>for (const toolCall of assistantMessage.tool_calls)\<close>.  \<open>Thrown\<close> leaves
  the function at that point, with the state as it then is.  (The array \<open>toolCalls\<close>,
  which is written and never read, is left out.)
\<close>

definition processToolCall ::
  "env \<Rightarrow> Scout \<Rightarrow> nat \<Rightarrow> string \<Rightarrow> nat \<Rightarrow> tool_call \<Rightarrow> run_state \<Rightarrow> signal \<times> run_state" where
  "processToolCall e scout executionId key maxAgeMs toolCall s0 =
     (let s1 = s0\<lparr>stepNumber := stepNumber s0 + 1\<rparr>;
          toolName = tc_name toolCall
      in case tc_arguments toolCall of
           Inl err \<Rightarrow> (Thrown err, s1)
         | Inr toolArgs \<Rightarrow>
             (let s2 = on_world (createStep executionId (stepNumber s1)
                          (if toolName = ''searchWeb'' then Search else Scrape)
                          (toolName @ '': '' @ show_opt (js_or (arg_query toolArgs) (arg_url toolArgs)) ''undefined'')
                          (Some (ArgsData toolArgs)) None Running) s1;
                  (toolResult, hasError, s3) = runTool e scout key maxAgeMs toolName toolArgs s2;
                  s4 = on_world (updateStep executionId (stepNumber s3)
                          (\<lambda>x. x\<lparr>st_status := (if hasError then Failed else Completed),
                                  st_output_data := Some (ResultData toolResult),
                                  st_error_message := (if hasError then result_error toolResult else None)\<rparr>)) s3
              in case trackErrors e toolName toolArgs toolResult hasError s4 of
                   (Thrown err, s5) \<Rightarrow> (Thrown err, s5)
                 | (Normal, s5) \<Rightarrow>
                     (Normal,
                      s5\<lparr>conversationMessages := conversationMessages s5 @
                           [ToolMsg (tc_id toolCall) (JSON_stringify e toolResult)]\<rparr>)))"

fun runToolCalls ::
  "env \<Rightarrow> Scout \<Rightarrow> nat \<Rightarrow> string \<Rightarrow> nat \<Rightarrow> tool_call list \<Rightarrow> run_state \<Rightarrow> signal \<times> run_state" where
  "runToolCalls e scout executionId key maxAgeMs [] s = (Normal, s)"
| "runToolCalls e scout executionId key maxAgeMs (toolCall # rest) s =
     (case processToolCall e scout executionId key maxAgeMs toolCall s of
        (Thrown err, s') \<Rightarrow> (Thrown err, s')
      | (Normal, s') \<Rightarrow> runToolCalls e scout executionId key maxAgeMs rest s')"

subsection \<open>The final branch\<close>

text \<open>
  The \<open>else\<close> branch of the loop body: the assistant's message has no tool calls.  It
  parses the content, saves the summarize step, makes the summary and its embedding,
  looks for a duplicate, writes the execution as completed and sends the email.
\<close>

definition finalizeRun ::
  "env \<Rightarrow> Scout \<Rightarrow> nat \<Rightarrow> execution list \<Rightarrow> string option \<Rightarrow> run_state \<Rightarrow> run_state" where
  "finalizeRun e scout executionId similarExecutions finalContent s0 =
     (let parsed = parseFinalContent (JSON_parse e) finalContent;
          s1 = s0\<lparr>continueLoop := False, stepNumber := stepNumber s0 + 1\<rparr>;
          s2 = on_world (createStep executionId (stepNumber s1) Summarize
                  ''Agent completed execution'' None (Some (ResponseData parsed)) Completed) s1;
          (sumText, sumEmbedding) = generateSummary e scout parsed;
          dup = detectDuplicate parsed sumEmbedding similarExecutions;
          final = (case dup of
                     None \<Rightarrow> parsed
                   | Some (prevExecution, similarity) \<Rightarrow>
                       parsed\<lparr>response := response parsed @ duplicateNote e prevExecution similarity\<rparr>);
          s3 = s2\<lparr>scoutResponse := Some final, summaryText := sumText,
                  summaryEmbedding := sumEmbedding, isDuplicate := (dup \<noteq> None)\<rparr>;
          t = now e (world s3);
          s4 = on_world (\<lambda>w. updateExecution executionId
                  (\<lambda>x. x\<lparr>ex_status := Completed, ex_completed_at := Some t,
                          ex_results_summary := Some final, ex_summary_text := sumText,
                          ex_summary_embedding := sumEmbedding\<rparr>) (tick w)) s3
      in if taskCompleted final \<and> \<not> isDuplicate s4
         then on_world (sendScoutSuccessEmail scout final) s4
         else s4)"

subsection \<open>The loop\<close>

definition reminder :: "nat \<Rightarrow> message" where
  "reminder n =
     SystemMsg (''REMINDER: You've used approximately '' @ show_nat n
                @ '' steps so far. Stay efficient and aim to complete soon. If you have verified findings, provide your final response now.'')"

text \<open>
  The loop body after \<open>loopCount++\<close>.  A chat request that fails, is not ok or whose body
  cannot be read throws out of the loop.
\<close>

definition loopBody ::
  "env \<Rightarrow> Scout \<Rightarrow> nat \<Rightarrow> string \<Rightarrow> nat \<Rightarrow> execution list \<Rightarrow> run_state \<Rightarrow> signal \<times> run_state" where
  "loopBody e scout executionId key maxAgeMs similarExecutions s0 =
     (let s1 = (if loopCount s0 > 1 \<and> loopCount s0 mod 3 = 0
                then s0\<lparr>conversationMessages := conversationMessages s0 @ [reminder (stepNumber s0)]\<rparr>
                else s0)
      in case chatFetch e (loopCount s1) (conversationMessages s1) of
           FetchAborted msg \<Rightarrow> (Thrown (AbortError msg), s1)
         | FetchFailed err \<Rightarrow> (Thrown err, s1)
         | HttpNotOk status statusText errorText \<Rightarrow>
             (Thrown (Error (''OpenAI API error: '' @ errorText)), s1)
         | HttpBadBody err \<Rightarrow> (Thrown err, s1)
         | HttpOk assistantMessage \<Rightarrow>
             (let s2 = s1\<lparr>conversationMessages :=
                          conversationMessages s1 @ [AssistantMsg assistantMessage]\<rparr>
              in if am_tool_calls assistantMessage \<noteq> []
                 then runToolCalls e scout executionId key maxAgeMs (am_tool_calls assistantMessage) s2
                 else (Normal, finalizeRun e scout executionId similarExecutions
                                 (am_content assistantMessage) s2)))"

text \<open>The loop count is changed by the loop alone, which is why the loop ends.\<close>

lemma loopCount_on_world [simp]: "loopCount (on_world f s) = loopCount s"
  by (simp add: on_world_def)

lemma runTool_loopCount:
  "runTool e scout key maxAgeMs toolName toolArgs s = (r, h, s') \<Longrightarrow> loopCount s' = loopCount s"
  by (auto simp: runTool_def Let_def split: prod.splits if_splits)

lemma trackErrors_loopCount:
  "trackErrors e toolName toolArgs toolResult hasError s = (sig, s') \<Longrightarrow> loopCount s' = loopCount s"
  by (auto simp: trackErrors_def Let_def split: if_splits)

lemma processToolCall_loopCount:
  "processToolCall e scout executionId key maxAgeMs toolCall s = (sig, s')
   \<Longrightarrow> loopCount s' = loopCount s"
  by (auto simp: processToolCall_def Let_def split: sum.splits prod.splits signal.splits
           dest!: runTool_loopCount trackErrors_loopCount)

lemma runToolCalls_loopCount:
  "runToolCalls e scout executionId key maxAgeMs calls s = (sig, s')
   \<Longrightarrow> loopCount s' = loopCount s"
proof (induction calls arbitrary: s)
  case Nil
  then show ?case by simp
next
  case (Cons toolCall rest)
  obtain sg s1 where p: "processToolCall e scout executionId key maxAgeMs toolCall s = (sg, s1)"
    by (cases "processToolCall e scout executionId key maxAgeMs toolCall s")
  have l1: "loopCount s1 = loopCount s"
    using p by (rule processToolCall_loopCount)
  show ?case
  proof (cases sg)
    case Normal
    with Cons.prems p have "runToolCalls e scout executionId key maxAgeMs rest s1 = (sig, s')"
      by simp
    then have "loopCount s' = loopCount s1" by (rule Cons.IH)
    with l1 show ?thesis by simp
  next
    case (Thrown err)
    with Cons.prems p have "s' = s1" by simp
    with l1 show ?thesis by simp
  qed
qed

lemma finalizeRun_loopCount:
  "loopCount (finalizeRun e scout executionId similarExecutions finalContent s) = loopCount s"
  by (simp add: finalizeRun_def Let_def split: prod.splits)

lemma loopBody_loopCount:
  "loopBody e scout executionId key maxAgeMs similarExecutions s = (sig, s')
   \<Longrightarrow> loopCount s' = loopCount s"
  by (auto simp: loopBody_def Let_def finalizeRun_loopCount
           split: fetch_result.splits if_splits dest: runToolCalls_loopCount)

text \<open>\<open>while (continueLoop && loopCount < maxLoops) { loopCount++; ... }\<close>\<close>

function agentLoop ::
  "env \<Rightarrow> Scout \<Rightarrow> nat \<Rightarrow> string \<Rightarrow> nat \<Rightarrow> execution list \<Rightarrow> run_state \<Rightarrow> signal \<times> run_state" where
  "agentLoop e scout executionId key maxAgeMs similarExecutions s =
     (if continueLoop s \<and> loopCount s < maxLoops
      then (case loopBody e scout executionId key maxAgeMs similarExecutions
                   (s\<lparr>loopCount := loopCount s + 1\<rparr>) of
              (Thrown err, s') \<Rightarrow> (Thrown err, s')
            | (Normal, s') \<Rightarrow> agentLoop e scout executionId key maxAgeMs similarExecutions s')
      else (Normal, s))"
  by pat_completeness auto
termination
proof (relation "measure (\<lambda>(e, scout, executionId, key, maxAgeMs, similarExecutions, s).
                            maxLoops - loopCount s)", goal_cases)
  case 1
  show ?case by simp
next
  case (2 e scout executionId key maxAgeMs similarExecutions s x y)
  from 2(2) have "loopBody e scout executionId key maxAgeMs similarExecutions
                    (s\<lparr>loopCount := loopCount s + 1\<rparr>) = (x, y)"
    by simp
  then have "loopCount y = loopCount s + 1"
    by (simp add: loopBody_loopCount)
  moreover from 2(1) have "loopCount s < maxLoops" by simp
  ultimately have "maxLoops - loopCount y < maxLoops - loopCount s"
    by arith
  then show ?case by simp
qed

declare agentLoop.simps [simp del]

subsection \<open>executeScoutAgent\<close>

definition incompleteSummary :: ScoutResponse where
  "incompleteSummary =
     \<lparr>taskCompleted = False, taskStatus = TS_partial,
      response = ''The scout execution reached its maximum iteration limit. The AI agent may have encountered repeated errors or gotten stuck in a loop. Please check the execution steps for more details.''\<rparr>"

definition initialState :: "world \<Rightarrow> run_state" where
  "initialState w =
     \<lparr>world = w, stepNumber = 0, loopCount = 0, consecutiveErrors = 0, continueLoop = True,
      conversationMessages = [], firecrawlApiCallsCount = 0, scoutResponse = None,
      summaryText = None, summaryEmbedding = None, isDuplicate = False\<rparr>"

text \<open>What follows the loop when nothing was thrown.\<close>

definition afterLoop :: "env \<Rightarrow> Scout \<Rightarrow> nat \<Rightarrow> FirecrawlKeyResult \<Rightarrow> run_state \<Rightarrow> run_state" where
  "afterLoop e scout executionId firecrawlKeyResult s0 =
     (let s1 = (if loopCount s0 \<ge> maxLoops
                then on_world (\<lambda>w. updateExecution executionId
                        (\<lambda>x. x\<lparr>ex_status := Completed, ex_completed_at := Some (now e w),
                                ex_results_summary := Some incompleteSummary\<rparr>) (tick w)) s0
                else s0);
          s2 = on_world (\<lambda>w. updateScouts (\<lambda>x. scout_id x = scout_id scout)
                  (\<lambda>x. x\<lparr>last_run_at := Some (now e w), consecutive_failures := 0\<rparr>) (tick w)) s1
      in if firecrawlApiCallsCount s2 > 0
         then on_world (logFirecrawlUsage
                 \<lparr>ul_userId = user_id scout, ul_scoutId = scout_id scout,
                  ul_executionId = executionId,
                  ul_usedFallback = usedFallback firecrawlKeyResult,
                  ul_fallbackReason = fallbackReason firecrawlKeyResult,
                  ul_apiCallsCount = firecrawlApiCallsCount s2\<rparr>) s2
         else s2)"

text \<open>The body of the outer \<open>try\<close>.\<close>

definition tryBody :: "env \<Rightarrow> Scout \<Rightarrow> nat \<Rightarrow> world \<Rightarrow> signal \<times> run_state" where
  "tryBody e scout executionId w =
     (case getOpenAIConfig (getenv e) of
        Inl err \<Rightarrow> (Thrown err, initialState w)
      | Inr openaiConfig \<Rightarrow>
          (let firecrawlKeyResult = getFirecrawlKeyForUser w (user_id scout)
           in case apiKey firecrawlKeyResult of
                None \<Rightarrow>
                  (Thrown (Error ''User does not have a valid Firecrawl API key configured. Please add your API key in Settings.''),
                   initialState w)
              | Some key \<Rightarrow>
                  if key = []
                  then (Thrown (Error ''User does not have a valid Firecrawl API key configured. Please add your API key in Settings.''),
                        initialState w)
                  else
                   (let maxAgeMs = getMaxAge e (scout_frequency scout);
                        similarExecutions = similarExecutionsOf w (scout_id scout);
                        systemPrompt = systemPromptFor e scout similarExecutions;
                        s1 = (initialState w)\<lparr>stepNumber := 1\<rparr>;
                        s2 = on_world (createStep executionId (stepNumber s1) Tool_call
                                (''Initializing agent with ''
                                 @ (if isAzure openaiConfig then ''Azure OpenAI'' else ''OpenAI''))
                                (Some (InitData (chatModel openaiConfig)
                                         (if isAzure openaiConfig then ''azure'' else ''openai'')
                                         (take 200 systemPrompt @ ''...'')))
                                None Running) s1;
                        s3 = s2\<lparr>conversationMessages :=
                                  [SystemMsg systemPrompt, UserMsg (userMessageFor e scout)]\<rparr>
                    in case agentLoop e scout executionId key maxAgeMs similarExecutions s3 of
                         (Thrown err, s') \<Rightarrow> (Thrown err, s')
                       | (Normal, s') \<Rightarrow>
                           (Normal, afterLoop e scout executionId firecrawlKeyResult s'))))"

text \<open>The outer \<open>catch\<close>.\<close>

definition catchHandler :: "env \<Rightarrow> Scout \<Rightarrow> nat \<Rightarrow> js_error \<Rightarrow> run_state \<Rightarrow> run_state" where
  "catchHandler e scout executionId err s0 =
     (let s1 = (if stepNumber s0 > 0
                then on_world (updateStep executionId (stepNumber s0)
                        (\<lambda>x. x\<lparr>st_status := Failed, st_error_message := Some (err_message err)\<rparr>)) s0
                else s0);
          s2 = on_world (\<lambda>w. updateExecution executionId
                  (\<lambda>x. x\<lparr>ex_status := Failed, ex_completed_at := Some (now e w),
                          ex_error_message := Some (err_message err)\<rparr>) (tick w)) s1;
          newFailureCount = consecutive_failures scout + 1;
          shouldDisable = (newFailureCount \<ge> 3)
      in on_world (\<lambda>w. updateScouts (\<lambda>x. scout_id x = scout_id scout)
            (\<lambda>x. x\<lparr>last_run_at := Some (now e w), consecutive_failures := newFailureCount,
                    is_active := (if shouldDisable then False else is_active x)\<rparr>) (tick w)) s2)"

text \<open>
  \<open>executeScoutAgent(scout, supabase)\<close>: the signal is \<open>Thrown\<close> with the error the outer
  \<open>catch\<close> received when the run failed.  When the insert of the execution row fails the
  function returns at once.  Console output and the analytics calls are left out.
\<close>

definition executeScoutAgent :: "env \<Rightarrow> Scout \<Rightarrow> world \<Rightarrow> signal \<times> run_state" where
  "executeScoutAgent e scout w =
     (if insertFails e then (Normal, initialState w)
      else (let executionId = newExecutionId w;
                w1 = insertExecution e (scout_id scout) w
            in case tryBody e scout executionId w1 of
                 (Normal, s) \<Rightarrow> (Normal, s)
               | (Thrown err, s) \<Rightarrow> (Thrown err, catchHandler e scout executionId err s)))"

section \<open>The entry point (index.ts)\<close>

record request =
  req_method :: string
  req_query_scoutId :: "string option"
  req_body_scoutId :: "string option"

datatype response_body =
    BodyOk
  | BodySuccess string string
  | BodyConflict string string nat
  | BodyError string

record http_response =
  resp_status :: nat
  resp_body :: response_body

text \<open>\<open>.eq("id", scoutId).single()\<close>: the row when exactly one matches.\<close>

definition fetchScout :: "world \<Rightarrow> string \<Rightarrow> Scout option" where
  "fetchScout w sid =
     (case filter (\<lambda>x. scout_id x = sid) (scouts w) of [x] \<Rightarrow> Some x | _ \<Rightarrow> None)"

text \<open>The latest running execution of the scout, if there is one.\<close>

definition runningExecution :: "world \<Rightarrow> string \<Rightarrow> execution option" where
  "runningExecution w sid =
     (case rev (sort_key ex_created_at
             (filter (\<lambda>x. ex_scout_id x = sid \<and> ex_status x = Running) (scout_executions w))) of
        [] \<Rightarrow> None
      | x # _ \<Rightarrow> Some x)"

definition isComplete :: "Scout \<Rightarrow> bool" where
  "isComplete scout =
     (title scout \<noteq> [] \<and> goal scout \<noteq> [] \<and> description scout \<noteq> []
      \<and> scout_location scout \<noteq> None \<and> length (search_queries scout) > 0
      \<and> scout_frequency scout \<noteq> None)"

definition error500 :: "string \<Rightarrow> http_response" where
  "error500 msg = \<lparr>resp_status = 500, resp_body = BodyError msg\<rparr>"

text \<open>
  The handler given to \<open>serve\<close>: the response and the world it leaves.  The scout id is
  the query parameter, or for a POST without one the \<open>scoutId\<close> of the JSON body (absent
  when the body does not parse).
\<close>

definition requestScoutId :: "request \<Rightarrow> string option" where
  "requestScoutId req =
     (if \<not> truthy (req_query_scoutId req) \<and> req_method req = ''POST''
      then req_body_scoutId req else req_query_scoutId req)"

definition serve :: "env \<Rightarrow> request \<Rightarrow> world \<Rightarrow> http_response \<times> world" where
  "serve e req w =
     (if req_method req = ''OPTIONS'' then (\<lparr>resp_status = 200, resp_body = BodyOk\<rparr>, w)
      else if \<not> truthy (getenv e ''SUPABASE_URL'') \<or> \<not> truthy (getenv e ''SUPABASE_SERVICE_ROLE_KEY'')
      then (error500 ''Supabase configuration missing'', w)
      else (let scoutId = requestScoutId req
            in if \<not> truthy scoutId
               then (error500 ''scoutId is required. This function executes individual scouts dispatched by pg_cron.'', w)
               else (let sid = str_or scoutId []
                     in case fetchScout w sid of
                          None \<Rightarrow> (error500 (''Scout '' @ sid @ '' not found in database''), w)
                        | Some scout \<Rightarrow>
                            if \<not> is_active scout
                            then (error500 (''Scout '' @ sid @ '' is not active''), w)
                            else if \<not> isComplete scout
                            then (error500 (''Scout '' @ sid @ '' configuration is not complete''), w)
                            else (case runningExecution w sid of
                                    Some running \<Rightarrow>
                                      (\<lparr>resp_status = 409,
                                        resp_body = BodyConflict ''Scout execution already in progress''
                                                      (scout_id scout) (ex_id running)\<rparr>, w)
                                  | None \<Rightarrow>
                                      (\<lparr>resp_status = 200,
                                        resp_body = BodySuccess (scout_id scout) (title scout)\<rparr>,
                                       world (snd (executeScoutAgent e scout w)))))))"

section \<open>Worked inputs\<close>

text \<open>
  A small world to run the executor in: one active, complete scout of user \<open>u1\<close>, who
  has a Firecrawl key; an environment whose chat endpoint is down; and variants of it in
  which the model asks for one search per turn for ever (\<open>busyEnv\<close>), every search fails
  (\<open>failingSearchEnv\<close>), the search answers 402 once and the model then gives up
  (\<open>creditsEnv\<close>), the model answers at once with a completed result (\<open>doneEnv\<close>), the
  summary comes back 151 characters long (\<open>longEnv\<close>), or the summary and a unit
  embedding come back (\<open>dupEnv\<close>).
\<close>

definition baseEnv :: env where
  "baseEnv =
     \<lparr>getenv = (\<lambda>k. if k = ''OPENAI_API_KEY'' then Some ''sk-test''
                     else if k = ''SUPABASE_URL'' then Some ''https://db''
                     else if k = ''SUPABASE_SERVICE_ROLE_KEY'' then Some ''service'' else None),
      clock = (\<lambda>k. 1000 + k),
      chatFetch = (\<lambda>n msgs. HttpNotOk 500 ''Internal Server Error'' ''overloaded''),
      summaryFetch = (\<lambda>msgs. HttpNotOk 500 ''Internal Server Error'' ''overloaded''),
      embeddingFetch = (\<lambda>t. HttpNotOk 500 ''Internal Server Error'' ''overloaded''),
      searchFetch = (\<lambda>n key p. HttpOk (Some [])),
      scrapeFetch = (\<lambda>n key p. HttpOk None),
      isBlacklistedDomain = (\<lambda>u. False),
      getMaxAge = (\<lambda>f. 86400000),
      JSON_parse = (\<lambda>s. None),
      JSON_stringify = (\<lambda>r. ''{}''),
      systemPromptFor = (\<lambda>scout xs. ''system''),
      userMessageFor = (\<lambda>scout. ''user''),
      toLocaleDateString = (\<lambda>t. ''1/1/2026''),
      toFixed1 = (\<lambda>x. ''92.3''),
      insertFails = False\<rparr>"

definition exampleScout :: Scout where
  "exampleScout =
     \<lparr>scout_id = ''s1'', user_id = ''u1'', title = ''AI News'', description = ''News about AI'',
      goal = ''Track AI news'', search_queries = [''AI news''],
      scout_location = Some \<lparr>city = ''any'', latitude = 0, longitude = 0\<rparr>,
      scout_frequency = Some Daily, is_active = True, last_run_at = None,
      consecutive_failures = 0, scrape_options = None\<rparr>"

definition exampleWorld :: world where
  "exampleWorld =
     \<lparr>scouts = [exampleScout], scout_executions = [], scout_execution_steps = [],
      user_preferences = [\<lparr>cred_user_id = ''u1'', cred_key = Some ''fc-key'',
                            cred_status = Active, cred_invalid_reason = None\<rparr>],
      firecrawl_usage = [], emails_sent = [], clock_reads = 0\<rparr>"

definition searchCall :: tool_call where
  "searchCall =
     \<lparr>tc_id = ''call_1'', tc_name = ''searchWeb'',
      tc_arguments = Inr \<lparr>arg_query = Some ''AI news'', arg_url = None, arg_limit = None,
                          arg_tbs = None\<rparr>\<rparr>"

definition creditsEnv :: env where
  "creditsEnv =
     baseEnv\<lparr>chatFetch := (\<lambda>n msgs. if n = 1 then HttpOk \<lparr>am_content = None, am_tool_calls = [searchCall]\<rparr>
                                    else HttpOk \<lparr>am_content = Some ''Nothing new.'', am_tool_calls = []\<rparr>),
             searchFetch := (\<lambda>n key p. HttpNotOk 402 ''Payment Required'' ''Insufficient credits'')\<rparr>"

definition busyEnv :: env where
  "busyEnv = baseEnv\<lparr>chatFetch := (\<lambda>n msgs. HttpOk \<lparr>am_content = None, am_tool_calls = [searchCall]\<rparr>)\<rparr>"

definition failingSearchEnv :: env where
  "failingSearchEnv =
     busyEnv\<lparr>searchFetch := (\<lambda>n key p. HttpNotOk 500 ''Internal Server Error'' ''try later'')\<rparr>"

definition foundResponse :: ScoutResponse where
  "foundResponse = \<lparr>taskCompleted = True, taskStatus = TS_completed, response = ''## New model released''\<rparr>"

definition doneEnv :: env where
  "doneEnv =
     baseEnv\<lparr>chatFetch := (\<lambda>n msgs. HttpOk \<lparr>am_content = Some ''{}'', am_tool_calls = []\<rparr>),
             JSON_parse := (\<lambda>s. if s = ''{}'' then Some foundResponse else None)\<rparr>"

definition longEnv :: env where
  "longEnv = doneEnv\<lparr>summaryFetch := (\<lambda>msgs. HttpOk (replicate 151 (CHR ''a'')))\<rparr>"

definition unitEmbedding :: "real list" where
  "unitEmbedding = 1 # replicate 1535 0"

definition dupEnv :: env where
  "dupEnv =
     doneEnv\<lparr>summaryFetch := (\<lambda>msgs. HttpOk '' A new model was released. ''),
             embeddingFetch := (\<lambda>t. HttpOk unitEmbedding)\<rparr>"



definition runningRow :: execution where
  "runningRow =
     \<lparr>ex_id = 7, ex_scout_id = ''s1'', ex_status = Running, ex_created_at = 900,
      ex_completed_at = None, ex_error_message = None, ex_results_summary = None,
      ex_summary_text = None, ex_summary_embedding = None\<rparr>"

definition runningWorld :: world where
  "runningWorld = exampleWorld\<lparr>scout_executions := [runningRow]\<rparr>"

definition pausedWorld :: world where
  "pausedWorld = runningWorld\<lparr>scouts := [exampleScout\<lparr>is_active := False\<rparr>]\<rparr>"

definition postRequest :: request where
  "postRequest = \<lparr>req_method = ''POST'', req_query_scoutId = None, req_body_scoutId = Some ''s1''\<rparr>"

section \<open>Notions used in the statements and their proofs\<close>


text \<open>
  The bounds the data model gives for a stored summary: at most 150 characters, and an
  embedding of 1536 dimensions, each unless null.
\<close>

definition withinBounds :: "execution \<Rightarrow> bool" where
  "withinBounds x =
     ((case ex_summary_text x of None \<Rightarrow> True | Some t \<Rightarrow> length t \<le> 150)
      \<and> (case ex_summary_embedding x of None \<Rightarrow> True | Some v \<Rightarrow> length v = 1536))"

text \<open>
  Three invariants of a run: the executions and scouts keep their ids; the emails sent
  are the ones sent before, followed by the one for the final response when it is
  completed and not a duplicate (and there is no final response while the loop
  continues); the completed executions and the run's own execution are within bounds.
\<close>

definition sameRows :: "world \<Rightarrow> world \<Rightarrow> bool" where
  "sameRows w w' =
     (map ex_id (scout_executions w') = map ex_id (scout_executions w)
      \<and> map scout_id (scouts w') = map scout_id (scouts w))"

definition mailInv :: "string \<Rightarrow> (string \<times> ScoutResponse) list \<Rightarrow> run_state \<Rightarrow> bool" where
  "mailInv sid em0 s =
     (emails_sent (world s) =
        em0 @ (case scoutResponse s of
                 None \<Rightarrow> []
               | Some r \<Rightarrow> if taskCompleted r \<and> \<not> isDuplicate s then [(sid, r)] else [])
      \<and> (continueLoop s \<longrightarrow> scoutResponse s = None))"

definition boundsInv :: "nat \<Rightarrow> run_state \<Rightarrow> bool" where
  "boundsInv eid s =
     (\<forall>x\<in>set (scout_executions (world s)). ex_status x = Completed \<or> ex_id x = eid \<longrightarrow> withinBounds x)"

section \<open>Auxiliary facts\<close>

subsection \<open>Evaluation\<close>

lemma show_nat_numeral:
  "show_nat (numeral k) =
     (if numeral k < (10::nat) then [digit_char (numeral k)]
      else show_nat (numeral k div 10) @ [digit_char (numeral k mod 10)])"
  by (rule show_nat.simps)

lemma show_nat_small: "show_nat 0 = ''0''" "show_nat 1 = ''1''"
  by (simp_all add: show_nat.simps digit_char_def)

lemma show_nat_3: "show_nat 3 = ''3''"
  by (simp add: show_nat.simps digit_char_def)

lemma show_402: "show_nat 402 = ''402''"
  by (simp add: show_nat.simps digit_char_def)

lemma agentLoop_unfold:
  "continueLoop s \<Longrightarrow> loopCount s < maxLoops \<Longrightarrow>
   agentLoop e scout executionId key maxAgeMs similarExecutions s =
     (let r = loopBody e scout executionId key maxAgeMs similarExecutions (s\<lparr>loopCount := loopCount s + 1\<rparr>)
      in if fst r = Normal then agentLoop e scout executionId key maxAgeMs similarExecutions (snd r) else r)"
  by (subst agentLoop.simps) (auto simp: Let_def split: prod.splits signal.splits)

lemma agentLoop_stop:
  "\<not> continueLoop s \<or> \<not> loopCount s < maxLoops \<Longrightarrow>
   agentLoop e scout executionId key maxAgeMs similarExecutions s = (Normal, s)"
  by (subst agentLoop.simps) auto

lemma agentLoop_Thrown:
  "continueLoop s \<Longrightarrow> loopCount s < maxLoops \<Longrightarrow>
   loopBody e scout executionId key maxAgeMs similarExecutions (s\<lparr>loopCount := loopCount s + 1\<rparr>)
     = (Thrown err, s1) \<Longrightarrow>
   agentLoop e scout executionId key maxAgeMs similarExecutions s = (Thrown err, s1)"
  by (subst agentLoop.simps) simp

lemmas world_ops = on_world_def createStep_def updateStep_def updateExecution_def updateScouts_def
  markFirecrawlKeyInvalid_def sendScoutSuccessEmail_def logFirecrawlUsage_def tick_def

lemmas run_eval =
  executeScoutAgent_def tryBody_def getOpenAIConfig_def truthy_def str_or_def
  getFirecrawlKeyForUser_def insertExecution_def newExecutionId_def now_def tick_def
  similarExecutionsOf_def recentExecutions_def initialState_def on_world_def createStep_def
  agentLoop_unfold agentLoop_stop maxLoops_def loopBody_def Let_def
  processToolCall_def runTool_def callTool_def executeSearchTool_def searchTry_def
  searchPayload_def num_or_def payload_headers_def payload_waitFor_def locationToUse_def
  firecrawlOptionsOf_def Error_def AbortError_def result_error_def error_includes_def
  show_nat_numeral show_nat_small digit_char_def
  markFirecrawlKeyInvalid_def updateScouts_def updateStep_def trackErrors_def tooManyErrors_def
  isBlacklistedError_def maxConsecutiveErrors_def js_or_def show_opt_def
  finalizeRun_def parseFinalContent_def generateSummary_def detectDuplicate_def
  updateExecution_def afterLoop_def logFirecrawlUsage_def catchHandler_def
  sendScoutSuccessEmail_def reminder_def

lemmas example_defs = baseEnv_def exampleScout_def exampleWorld_def searchCall_def
  foundResponse_def doneEnv_def

lemmas clean_eval = cleanJson_def trim_def is_space_def fence3_def truncateLastBrace_def

lemma singleton_map: "map f xs = [a] \<Longrightarrow> \<exists>x. xs = [x] \<and> f x = a"
  by (cases xs) auto








subsection \<open>Invariants of the loops\<close>

lemma runToolCalls_invariant:
  assumes step: "\<And>toolCall s sig s'. I s \<Longrightarrow>
             processToolCall e scout executionId key maxAgeMs toolCall s = (sig, s') \<Longrightarrow> I s'"
    and "I s" and "runToolCalls e scout executionId key maxAgeMs calls s = (sig, s')"
  shows "I s'"
  using assms(2,3)
proof (induction calls arbitrary: s)
  case Nil
  then show ?case by simp
next
  case (Cons toolCall rest)
  obtain sg s1 where p: "processToolCall e scout executionId key maxAgeMs toolCall s = (sg, s1)"
    by (cases "processToolCall e scout executionId key maxAgeMs toolCall s")
  have i1: "I s1" using Cons.prems(1) p by (rule step)
  show ?case
  proof (cases sg)
    case Normal
    with Cons.prems(2) p have "runToolCalls e scout executionId key maxAgeMs rest s1 = (sig, s')"
      by simp
    with i1 show ?thesis by (rule Cons.IH)
  next
    case (Thrown err)
    with Cons.prems(2) p have "s' = s1" by simp
    with i1 show ?thesis by simp
  qed
qed

lemma agentLoop_invariant:
  assumes body: "\<And>s sig s'. I s \<Longrightarrow> continueLoop s \<Longrightarrow>
             loopBody e scout executionId key maxAgeMs similarExecutions
               (s\<lparr>loopCount := loopCount s + 1\<rparr>) = (sig, s') \<Longrightarrow> I s'"
    and "I s" and "agentLoop e scout executionId key maxAgeMs similarExecutions s = (sig, s')"
  shows "I s'"
  using assms
proof (induction e scout executionId key maxAgeMs similarExecutions s rule: agentLoop.induct)
  case (1 e scout executionId key maxAgeMs similarExecutions s)
  show ?case
  proof (cases "continueLoop s \<and> loopCount s < maxLoops")
    case False
    with "1.prems"(2,3) show ?thesis by (simp add: agentLoop.simps)
  next
    case True
    obtain sg s1 where b: "loopBody e scout executionId key maxAgeMs similarExecutions
                             (s\<lparr>loopCount := loopCount s + 1\<rparr>) = (sg, s1)"
      by (cases "loopBody e scout executionId key maxAgeMs similarExecutions
                   (s\<lparr>loopCount := loopCount s + 1\<rparr>)")
    have i1: "I s1"
      using "1.prems"(2) True b by (auto intro: "1.prems"(1))
    show ?thesis
    proof (cases sg)
      case Normal
      with "1.prems"(3) True b
      have rest: "agentLoop e scout executionId key maxAgeMs similarExecutions s1 = (sig, s')"
        by (simp add: agentLoop.simps[of e scout executionId key maxAgeMs similarExecutions s])
      show ?thesis
        by (rule "1.IH"[OF True b[symmetric] Normal "1.prems"(1) i1 rest])
    next
      case (Thrown err)
      with "1.prems"(3) True b have "s' = s1"
        by (simp add: agentLoop.simps[of e scout executionId key maxAgeMs similarExecutions s])
      with i1 show ?thesis by simp
    qed
  qed
qed

subsection \<open>The rows keep their ids\<close>

lemma sameRows_refl [simp]: "sameRows w w"
  by (simp add: sameRows_def)

lemma sameRows_map_ex:
  "(\<And>x. ex_id (f x) = ex_id x) \<Longrightarrow> map (ex_id \<circ> (\<lambda>x. if P x then f x else x)) xs = map ex_id xs"
  by (induction xs) auto

lemma sameRows_map_sc:
  "(\<And>x. scout_id (f x) = scout_id x) \<Longrightarrow> map (scout_id \<circ> (\<lambda>x. if P x then f x else x)) xs = map scout_id xs"
  by (induction xs) auto

lemma runTool_sameRows:
  "runTool e scout key maxAgeMs toolName toolArgs s = (r, h, s') \<Longrightarrow>
   sameRows w (world s) \<Longrightarrow> sameRows w (world s')"
  by (auto simp: runTool_def Let_def sameRows_def world_ops sameRows_map_sc
           split: prod.splits if_splits)

lemma trackErrors_world:
  "trackErrors e toolName toolArgs toolResult hasError s = (sig, s') \<Longrightarrow> world s' = world s"
  by (auto simp: trackErrors_def Let_def split: if_splits)

lemma processToolCall_sameRows:
  "processToolCall e scout executionId key maxAgeMs toolCall s = (sig, s') \<Longrightarrow>
   sameRows w (world s) \<Longrightarrow> sameRows w (world s')"
  apply (auto simp: processToolCall_def Let_def split: sum.splits prod.splits signal.splits)
  apply (auto dest!: trackErrors_world runTool_sameRows[where w=w] simp: sameRows_def world_ops)
  done

lemma finalizeRun_sameRows:
  "sameRows w (world s) \<Longrightarrow>
   sameRows w (world (finalizeRun e scout executionId similarExecutions finalContent s))"
  by (auto simp: finalizeRun_def Let_def sameRows_def world_ops sameRows_map_ex
           split: prod.splits option.splits)

lemma loopBody_sameRows:
  assumes "loopBody e scout executionId key maxAgeMs similarExecutions s = (sig, s')"
    and "sameRows w (world s)"
  shows "sameRows w (world s')"
proof (cases "chatFetch e (loopCount s) (conversationMessages
          (if loopCount s > 1 \<and> loopCount s mod 3 = 0
           then s\<lparr>conversationMessages := conversationMessages s @ [reminder (stepNumber s)]\<rparr>
           else s))")
  case (HttpOk assistantMessage)
  show ?thesis
  proof (cases "am_tool_calls assistantMessage = []")
    case True
    with assms HttpOk show ?thesis
      by (auto simp: loopBody_def Let_def intro!: finalizeRun_sameRows split: if_splits)
  next
    case False
    with assms HttpOk show ?thesis
      by (auto simp: loopBody_def Let_def split: if_splits
               elim!: runToolCalls_invariant[where I="\<lambda>s. sameRows w (world s)", rotated 2]
               dest: processToolCall_sameRows)
  qed
qed (use assms in \<open>auto simp: loopBody_def Let_def split: if_splits\<close>)

lemma agentLoop_sameRows:
  assumes "agentLoop e scout executionId key maxAgeMs similarExecutions s = (sig, s')"
    and "sameRows w (world s)"
  shows "sameRows w (world s')"
proof (rule agentLoop_invariant[where I="\<lambda>s. sameRows w (world s)", OF _ assms(2) assms(1)])
  fix s sig s'
  assume "sameRows w (world s)"
    and "loopBody e scout executionId key maxAgeMs similarExecutions
           (s\<lparr>loopCount := loopCount s + 1\<rparr>) = (sig, s')"
  then show "sameRows w (world s')"
    using loopBody_sameRows[of e scout executionId key maxAgeMs similarExecutions
            "s\<lparr>loopCount := loopCount s + 1\<rparr>" sig s' w]
    by simp
qed

lemma afterLoop_sameRows:
  "sameRows w (world s) \<Longrightarrow> sameRows w (world (afterLoop e scout executionId kr s))"
  by (auto simp: afterLoop_def Let_def sameRows_def world_ops sameRows_map_ex sameRows_map_sc)

lemma tryBody_sameRows:
  assumes "tryBody e scout executionId w1 = (sig, s')"
  shows "sameRows w1 (world s')"
  using assms
  by (auto simp: tryBody_def Let_def initialState_def world_ops sameRows_def[of w1 "w1\<lparr>scout_execution_steps := _\<rparr>"]
           split: sum.splits option.splits if_splits prod.splits signal.splits
           dest!: agentLoop_sameRows[where w=w1] intro!: afterLoop_sameRows)

lemma catchHandler_sameRows:
  "sameRows w (world s) \<Longrightarrow> sameRows w (world (catchHandler e scout executionId err s))"
  by (auto simp: catchHandler_def Let_def sameRows_def world_ops sameRows_map_ex sameRows_map_sc)

lemma executeScoutAgent_rows:
  assumes "executeScoutAgent e scout w = (sig, s')" and "\<not> insertFails e"
  shows "map ex_id (scout_executions (world s')) = map ex_id (scout_executions w) @ [newExecutionId w]"
    and "map scout_id (scouts (world s')) = map scout_id (scouts w)"
proof -
  obtain sg s1 where t: "tryBody e scout (newExecutionId w) (insertExecution e (scout_id scout) w) = (sg, s1)"
    by (cases "tryBody e scout (newExecutionId w) (insertExecution e (scout_id scout) w)")
  then have s1: "sameRows (insertExecution e (scout_id scout) w) (world s1)"
    by (rule tryBody_sameRows)
  have "sameRows (insertExecution e (scout_id scout) w) (world s')"
    using assms t s1 by (cases sg) (auto simp: executeScoutAgent_def Let_def intro: catchHandler_sameRows)
  then show "map ex_id (scout_executions (world s')) = map ex_id (scout_executions w) @ [newExecutionId w]"
    and "map scout_id (scouts (world s')) = map scout_id (scouts w)"
    by (simp_all add: sameRows_def insertExecution_def tick_def)
qed

lemma fold_max_ge: "(a::nat) \<le> fold max xs a \<and> (\<forall>x\<in>set xs. x \<le> fold max xs a)"
proof (induction xs arbitrary: a)
  case Nil
  then show ?case by simp
next
  case (Cons y ys)
  have "max y a \<le> fold max ys (max y a)" and "\<forall>x\<in>set ys. x \<le> fold max ys (max y a)"
    using Cons.IH[of "max y a"] by simp_all
  then show ?case by auto
qed

lemma newExecutionId_fresh: "x \<in> set (scout_executions w) \<Longrightarrow> ex_id x \<noteq> newExecutionId w"
proof -
  assume "x \<in> set (scout_executions w)"
  then have "ex_id x \<in> set (map ex_id (scout_executions w))" by simp
  then have "ex_id x \<le> fold max (map ex_id (scout_executions w)) 0"
    using fold_max_ge[of 0 "map ex_id (scout_executions w)"] by blast
  then show ?thesis by (simp add: newExecutionId_def)
qed

subsection \<open>What the two ways out of a run write\<close>

lemma updateScouts_hit:
  assumes "\<And>y. sel (upd y) = sel y" and "x \<in> set (scouts (updateScouts sel upd w))" and "sel x"
  shows "\<exists>y\<in>set (scouts w). x = upd y"
  using assms by (auto simp: updateScouts_def split: if_splits)

lemma updateExecution_hit:
  assumes "\<And>y. ex_id (upd y) = ex_id y" and "x \<in> set (scout_executions (updateExecution eid upd w))"
    and "ex_id x = eid"
  shows "\<exists>y\<in>set (scout_executions w). x = upd y"
  using assms by (auto simp: updateExecution_def split: if_splits)

lemma catchHandler_world_eq:
  "world (catchHandler e scout executionId err s) =
     (let w1 = world (if stepNumber s > 0
                      then on_world (updateStep executionId (stepNumber s)
                             (\<lambda>x. x\<lparr>st_status := Failed, st_error_message := Some (err_message err)\<rparr>)) s
                      else s);
          w2 = updateExecution executionId
            (\<lambda>x. x\<lparr>ex_status := Failed, ex_completed_at := Some (clock e (clock_reads w1)),
                    ex_error_message := Some (err_message err)\<rparr>) (tick w1)
      in updateScouts (\<lambda>x. scout_id x = scout_id scout)
       (\<lambda>x. x\<lparr>last_run_at := Some (clock e (clock_reads w2)),
               consecutive_failures := consecutive_failures scout + 1,
               is_active := (if consecutive_failures scout + 1 \<ge> 3 then False else is_active x)\<rparr>)
       (tick w2))"
  by (simp add: catchHandler_def Let_def on_world_def now_def)

lemma catchHandler_world:
  "\<exists>w2. world (catchHandler e scout executionId err s) =
     updateScouts (\<lambda>x. scout_id x = scout_id scout)
       (\<lambda>x. x\<lparr>last_run_at := Some (clock e (clock_reads w2)),
               consecutive_failures := consecutive_failures scout + 1,
               is_active := (if consecutive_failures scout + 1 \<ge> 3 then False else is_active x)\<rparr>)
       (tick w2)
     \<and> (\<exists>w1. w2 = updateExecution executionId
            (\<lambda>x. x\<lparr>ex_status := Failed, ex_completed_at := Some (clock e (clock_reads w1)),
                    ex_error_message := Some (err_message err)\<rparr>) (tick w1))"
  unfolding catchHandler_world_eq Let_def by blast

lemma catchHandler_scouts:
  "\<forall>x\<in>set (scouts (world (catchHandler e scout executionId err s))).
     scout_id x = scout_id scout \<longrightarrow>
       last_run_at x = Some (clock e (clock_reads (world (catchHandler e scout executionId err s)) - 1))
       \<and> consecutive_failures x = consecutive_failures scout + 1
       \<and> (consecutive_failures scout + 1 \<ge> 3 \<longrightarrow> \<not> is_active x)
       \<and> (consecutive_failures x \<ge> 3 \<longrightarrow> \<not> is_active x)"
proof (intro ballI impI)
  fix x
  assume x: "x \<in> set (scouts (world (catchHandler e scout executionId err s)))"
    and sid: "scout_id x = scout_id scout"
  obtain w2 where w: "world (catchHandler e scout executionId err s) =
     updateScouts (\<lambda>x. scout_id x = scout_id scout)
       (\<lambda>x. x\<lparr>last_run_at := Some (clock e (clock_reads w2)),
               consecutive_failures := consecutive_failures scout + 1,
               is_active := (if consecutive_failures scout + 1 \<ge> 3 then False else is_active x)\<rparr>)
       (tick w2)"
    using catchHandler_world by blast
  have reads: "clock_reads (world (catchHandler e scout executionId err s)) - 1 = clock_reads w2"
    unfolding w by (simp add: updateScouts_def tick_def)
  from x sid obtain y where "x = y\<lparr>last_run_at := Some (clock e (clock_reads w2)),
               consecutive_failures := consecutive_failures scout + 1,
               is_active := (if consecutive_failures scout + 1 \<ge> 3 then False else is_active y)\<rparr>"
    unfolding w
    using updateScouts_hit[where sel="\<lambda>x. scout_id x = scout_id scout" and x=x and w="tick w2"
        and upd="\<lambda>x. x\<lparr>last_run_at := Some (clock e (clock_reads w2)),
               consecutive_failures := consecutive_failures scout + 1,
               is_active := (if consecutive_failures scout + 1 \<ge> 3 then False else is_active x)\<rparr>"]
    by auto
  then show "last_run_at x = Some (clock e (clock_reads (world (catchHandler e scout executionId err s)) - 1))
       \<and> consecutive_failures x = consecutive_failures scout + 1
       \<and> (consecutive_failures scout + 1 \<ge> 3 \<longrightarrow> \<not> is_active x)
       \<and> (consecutive_failures x \<ge> 3 \<longrightarrow> \<not> is_active x)"
    unfolding reads by simp
qed

lemma catchHandler_execution:
  "\<forall>x\<in>set (scout_executions (world (catchHandler e scout executionId err s))).
     ex_id x = executionId \<longrightarrow>
       ex_status x = Failed \<and> ex_error_message x = Some (err_message err)"
proof (intro ballI impI)
  fix x
  assume x: "x \<in> set (scout_executions (world (catchHandler e scout executionId err s)))"
    and eid: "ex_id x = executionId"
  obtain w2 w1 where w: "world (catchHandler e scout executionId err s) =
     updateScouts (\<lambda>x. scout_id x = scout_id scout)
       (\<lambda>x. x\<lparr>last_run_at := Some (clock e (clock_reads w2)),
               consecutive_failures := consecutive_failures scout + 1,
               is_active := (if consecutive_failures scout + 1 \<ge> 3 then False else is_active x)\<rparr>)
       (tick w2)"
    and w2: "w2 = updateExecution executionId
            (\<lambda>x. x\<lparr>ex_status := Failed, ex_completed_at := Some (clock e (clock_reads w1)),
                    ex_error_message := Some (err_message err)\<rparr>) (tick w1)"
    using catchHandler_world by blast
  have "x \<in> set (scout_executions w2)"
    using x unfolding w by (simp add: updateScouts_def tick_def)
  then obtain y where "x = y\<lparr>ex_status := Failed, ex_completed_at := Some (clock e (clock_reads w1)),
                    ex_error_message := Some (err_message err)\<rparr>"
    unfolding w2
    using eid updateExecution_hit[where eid=executionId and x=x and w="tick w1"
        and upd="\<lambda>x. x\<lparr>ex_status := Failed, ex_completed_at := Some (clock e (clock_reads w1)),
                    ex_error_message := Some (err_message err)\<rparr>"]
    by auto
  then show "ex_status x = Failed \<and> ex_error_message x = Some (err_message err)"
    by simp
qed

lemma executeScoutAgent_Thrown:
  assumes "executeScoutAgent e scout w = (Thrown err, s')"
  shows "\<not> insertFails e"
    and "\<exists>s. s' = catchHandler e scout (newExecutionId w) err s"
  using assms
  by (auto simp: executeScoutAgent_def Let_def split: if_splits prod.splits signal.splits)

lemma afterLoop_frame:
  "loopCount (afterLoop e scout executionId kr s) = loopCount s"
  "continueLoop (afterLoop e scout executionId kr s) = continueLoop s"
  by (simp_all add: afterLoop_def Let_def on_world_def)

lemma afterLoop_world_eq:
  "scout_executions (world (afterLoop e scout executionId kr s)) =
     scout_executions (if loopCount s \<ge> maxLoops
        then updateExecution executionId
             (\<lambda>x. x\<lparr>ex_status := Completed, ex_completed_at := Some (clock e (clock_reads (world s))),
                     ex_results_summary := Some incompleteSummary\<rparr>) (tick (world s))
        else world s)"
  "scouts (world (afterLoop e scout executionId kr s)) =
     (let w2 = (if loopCount s \<ge> maxLoops
        then updateExecution executionId
             (\<lambda>x. x\<lparr>ex_status := Completed, ex_completed_at := Some (clock e (clock_reads (world s))),
                     ex_results_summary := Some incompleteSummary\<rparr>) (tick (world s))
        else world s)
      in scouts (updateScouts (\<lambda>x. scout_id x = scout_id scout)
          (\<lambda>x. x\<lparr>last_run_at := Some (clock e (clock_reads w2)), consecutive_failures := 0\<rparr>) (tick w2)))"
  by (simp_all add: afterLoop_def Let_def on_world_def now_def logFirecrawlUsage_def updateScouts_def tick_def)

lemma afterLoop_world:
  "\<exists>w2. scouts (world (afterLoop e scout executionId kr s)) =
       scouts (updateScouts (\<lambda>x. scout_id x = scout_id scout)
          (\<lambda>x. x\<lparr>last_run_at := Some (clock e (clock_reads w2)), consecutive_failures := 0\<rparr>) (tick w2))
     \<and> scout_executions (world (afterLoop e scout executionId kr s)) = scout_executions w2
     \<and> (loopCount s \<ge> maxLoops \<longrightarrow>
          (\<exists>w1. w2 = updateExecution executionId
             (\<lambda>x. x\<lparr>ex_status := Completed, ex_completed_at := Some (clock e (clock_reads w1)),
                     ex_results_summary := Some incompleteSummary\<rparr>) (tick w1)))"
proof (cases "loopCount s \<ge> maxLoops")
  case True
  then show ?thesis
    unfolding afterLoop_world_eq Let_def by (simp only: if_True) blast
next
  case False
  then show ?thesis
    unfolding afterLoop_world_eq Let_def by (simp only: if_False) blast
qed

lemma afterLoop_limit:
  assumes "loopCount s \<ge> maxLoops"
  shows "\<forall>x\<in>set (scout_executions (world (afterLoop e scout executionId kr s))).
           ex_id x = executionId \<longrightarrow>
             ex_status x = Completed \<and> ex_results_summary x = Some incompleteSummary"
proof (intro ballI impI)
  fix x
  assume x: "x \<in> set (scout_executions (world (afterLoop e scout executionId kr s)))"
    and eid: "ex_id x = executionId"
  obtain w2 w1 where ex: "scout_executions (world (afterLoop e scout executionId kr s)) = scout_executions w2"
    and w2: "w2 = updateExecution executionId
             (\<lambda>x. x\<lparr>ex_status := Completed, ex_completed_at := Some (clock e (clock_reads w1)),
                     ex_results_summary := Some incompleteSummary\<rparr>) (tick w1)"
    using afterLoop_world[of e scout executionId kr s] assms by auto
  from x obtain y where "x = y\<lparr>ex_status := Completed, ex_completed_at := Some (clock e (clock_reads w1)),
                     ex_results_summary := Some incompleteSummary\<rparr>"
    unfolding ex w2
    using eid updateExecution_hit[where eid=executionId and x=x and w="tick w1"
        and upd="\<lambda>x. x\<lparr>ex_status := Completed, ex_completed_at := Some (clock e (clock_reads w1)),
                     ex_results_summary := Some incompleteSummary\<rparr>"]
    by auto
  then show "ex_status x = Completed \<and> ex_results_summary x = Some incompleteSummary"
    by simp
qed

lemma afterLoop_scouts:
  "\<forall>x\<in>set (scouts (world (afterLoop e scout executionId kr s))).
     scout_id x = scout_id scout \<longrightarrow> consecutive_failures x = 0"
proof (intro ballI impI)
  fix x
  assume x: "x \<in> set (scouts (world (afterLoop e scout executionId kr s)))"
    and sid: "scout_id x = scout_id scout"
  obtain w2 where sc: "scouts (world (afterLoop e scout executionId kr s)) =
      scouts (updateScouts (\<lambda>x. scout_id x = scout_id scout)
          (\<lambda>x. x\<lparr>last_run_at := Some (clock e (clock_reads w2)), consecutive_failures := 0\<rparr>) (tick w2))"
    using afterLoop_world[of e scout executionId kr s] by auto
  from x sid obtain y where "x = y\<lparr>last_run_at := Some (clock e (clock_reads w2)), consecutive_failures := 0\<rparr>"
    unfolding sc
    using updateScouts_hit[where sel="\<lambda>x. scout_id x = scout_id scout" and x=x and w="tick w2"
        and upd="\<lambda>x. x\<lparr>last_run_at := Some (clock e (clock_reads w2)), consecutive_failures := 0\<rparr>"]
    by auto
  then show "consecutive_failures x = 0" by simp
qed

lemma executeScoutAgent_Normal:
  assumes "executeScoutAgent e scout w = (Normal, s')" and "loopCount s' \<noteq> 0"
  shows "\<not> insertFails e"
    and "\<exists>kr s. s' = afterLoop e scout (newExecutionId w) kr s"
  using assms
  by (auto simp: executeScoutAgent_def Let_def tryBody_def initialState_def
           split: if_splits prod.splits signal.splits sum.splits option.splits)

lemma runTool_hasError:
  "runTool e scout key maxAgeMs toolName toolArgs s = (r, h, s1) \<Longrightarrow> h = (result_error r \<noteq> None)"
  by (auto simp: runTool_def Let_def result_error_def split: prod.splits if_splits)

subsection \<open>Emails\<close>

lemma runTool_mail:
  "runTool e scout key maxAgeMs toolName toolArgs s = (r, h, s') \<Longrightarrow>
   emails_sent (world s') = emails_sent (world s) \<and> scoutResponse s' = scoutResponse s
   \<and> isDuplicate s' = isDuplicate s \<and> continueLoop s' = continueLoop s"
  by (auto simp: runTool_def Let_def world_ops split: prod.splits if_splits)

lemma trackErrors_mail:
  "trackErrors e toolName toolArgs toolResult hasError s = (sig, s') \<Longrightarrow>
   world s' = world s \<and> scoutResponse s' = scoutResponse s
   \<and> isDuplicate s' = isDuplicate s \<and> continueLoop s' = continueLoop s"
  by (auto simp: trackErrors_def Let_def split: if_splits)

lemma processToolCall_mail:
  "processToolCall e scout executionId key maxAgeMs toolCall s = (sig, s') \<Longrightarrow>
   emails_sent (world s') = emails_sent (world s) \<and> scoutResponse s' = scoutResponse s
   \<and> isDuplicate s' = isDuplicate s \<and> continueLoop s' = continueLoop s"
  apply (auto simp: processToolCall_def Let_def split: sum.splits prod.splits signal.splits)
  apply (auto dest!: trackErrors_mail runTool_mail simp: world_ops)
  done

lemma processToolCall_mailInv:
  "mailInv sid em0 s \<Longrightarrow> processToolCall e scout executionId key maxAgeMs toolCall s = (sig, s')
   \<Longrightarrow> mailInv sid em0 s'"
  by (drule processToolCall_mail) (simp add: mailInv_def cong: option.case_cong)

lemma finalizeRun_mailInv:
  "emails_sent (world s) = em0 \<Longrightarrow>
   mailInv (scout_id scout) em0 (finalizeRun e scout executionId similarExecutions finalContent s)"
  by (auto simp: finalizeRun_def Let_def mailInv_def world_ops split: prod.splits option.splits)

lemma loopBody_mailInv:
  assumes "loopBody e scout executionId key maxAgeMs similarExecutions s = (sig, s')"
    and "mailInv (scout_id scout) em0 s" and "continueLoop s"
  shows "mailInv (scout_id scout) em0 s'"
proof -
  define s1 where "s1 = (if loopCount s > 1 \<and> loopCount s mod 3 = 0
           then s\<lparr>conversationMessages := conversationMessages s @ [reminder (stepNumber s)]\<rparr>
           else s)"
  have em: "emails_sent (world s) = em0"
    using assms(2,3) by (simp add: mailInv_def)
  have inv1: "\<And>m. mailInv (scout_id scout) em0 (s1\<lparr>conversationMessages := m\<rparr>)"
    using assms(2) by (simp add: mailInv_def s1_def cong: option.case_cong)
  have em1: "\<And>m. emails_sent (world (s1\<lparr>conversationMessages := m\<rparr>)) = em0"
    using em by (simp add: s1_def)
  have inv1': "mailInv (scout_id scout) em0 s1"
    using assms(2) by (simp add: mailInv_def s1_def cong: option.case_cong)
  show ?thesis
  proof (cases "chatFetch e (loopCount s1) (conversationMessages s1)")
    case (HttpOk assistantMessage)
    show ?thesis
    proof (cases "am_tool_calls assistantMessage = []")
      case True
      with assms(1) HttpOk have "s' = finalizeRun e scout executionId similarExecutions
            (am_content assistantMessage)
            (s1\<lparr>conversationMessages := conversationMessages s1 @ [AssistantMsg assistantMessage]\<rparr>)"
        by (simp add: loopBody_def Let_def s1_def)
      then show ?thesis
        using finalizeRun_mailInv[OF em1] by simp
    next
      case False
      with assms(1) HttpOk have "runToolCalls e scout executionId key maxAgeMs
            (am_tool_calls assistantMessage)
            (s1\<lparr>conversationMessages := conversationMessages s1 @ [AssistantMsg assistantMessage]\<rparr>)
            = (sig, s')"
        by (simp add: loopBody_def Let_def s1_def)
      then show ?thesis
        by (rule runToolCalls_invariant[where I="mailInv (scout_id scout) em0", rotated 2])
           (auto intro: processToolCall_mailInv inv1)
    qed
  next
    case (FetchAborted m)
    with assms(1) have "s' = s1" by (simp add: loopBody_def Let_def s1_def)
    with inv1' show ?thesis by simp
  next
    case (FetchFailed err)
    with assms(1) have "s' = s1" by (simp add: loopBody_def Let_def s1_def)
    with inv1' show ?thesis by simp
  next
    case (HttpNotOk st stt body)
    with assms(1) have "s' = s1" by (simp add: loopBody_def Let_def s1_def)
    with inv1' show ?thesis by simp
  next
    case (HttpBadBody err)
    with assms(1) have "s' = s1" by (simp add: loopBody_def Let_def s1_def)
    with inv1' show ?thesis by simp
  qed
qed

lemma agentLoop_mailInv:
  assumes "agentLoop e scout executionId key maxAgeMs similarExecutions s = (sig, s')"
    and "mailInv (scout_id scout) em0 s"
  shows "mailInv (scout_id scout) em0 s'"
proof (rule agentLoop_invariant[where I="mailInv (scout_id scout) em0", OF _ assms(2) assms(1)])
  fix s sig s'
  assume inv: "mailInv (scout_id scout) em0 s" and c: "continueLoop s"
    and b: "loopBody e scout executionId key maxAgeMs similarExecutions
           (s\<lparr>loopCount := loopCount s + 1\<rparr>) = (sig, s')"
  have i: "mailInv (scout_id scout) em0 (s\<lparr>loopCount := loopCount s + 1\<rparr>)"
    using inv by (simp add: mailInv_def cong: option.case_cong)
  have c': "continueLoop (s\<lparr>loopCount := loopCount s + 1\<rparr>)"
    using c by simp
  show "mailInv (scout_id scout) em0 s'"
    using b i c' by (rule loopBody_mailInv)
qed

lemma afterLoop_mailInv:
  "mailInv sid em0 s \<Longrightarrow> mailInv sid em0 (afterLoop e scout executionId kr s)"
  by (simp add: afterLoop_def Let_def mailInv_def world_ops cong: option.case_cong)

lemma catchHandler_mailInv:
  "mailInv sid em0 s \<Longrightarrow> mailInv sid em0 (catchHandler e scout executionId err s)"
  by (simp add: catchHandler_def Let_def mailInv_def world_ops cong: option.case_cong)

lemma initialState_mailInv:
  "mailInv sid (emails_sent w) (initialState w)"
  by (simp add: mailInv_def initialState_def)

lemma tryBody_mailInv:
  assumes "tryBody e scout executionId w1 = (sig, s')"
  shows "mailInv (scout_id scout) (emails_sent w1) s'"
proof (cases "getOpenAIConfig (getenv e)")
  case (Inl err)
  with assms show ?thesis
    by (auto simp: tryBody_def initialState_mailInv)
next
  case (Inr cfg)
  show ?thesis
  proof (cases "truthy (apiKey (getFirecrawlKeyForUser w1 (user_id scout)))")
    case False
    with Inr assms show ?thesis
      by (auto simp: tryBody_def Let_def truthy_def initialState_mailInv
               split: option.splits if_splits)
  next
    case True
    then obtain key where key: "apiKey (getFirecrawlKeyForUser w1 (user_id scout)) = Some key"
      and ne: "key \<noteq> []"
      by (auto simp: truthy_def split: option.splits)
    define s3 where "s3 = (on_world (createStep executionId (stepNumber ((initialState w1)\<lparr>stepNumber := 1\<rparr>)) Tool_call
                                (''Initializing agent with ''
                                 @ (if isAzure cfg then ''Azure OpenAI'' else ''OpenAI''))
                                (Some (InitData (chatModel cfg)
                                         (if isAzure cfg then ''azure'' else ''openai'')
                                         (take 200 (systemPromptFor e scout (similarExecutionsOf w1 (scout_id scout))) @ ''...'')))
                                None Running) ((initialState w1)\<lparr>stepNumber := 1\<rparr>))
              \<lparr>conversationMessages :=
                 [SystemMsg (systemPromptFor e scout (similarExecutionsOf w1 (scout_id scout))),
                  UserMsg (userMessageFor e scout)]\<rparr>"
    have inv3: "mailInv (scout_id scout) (emails_sent w1) s3"
      by (simp add: s3_def mailInv_def initialState_def world_ops)
    obtain sg sL where loop: "agentLoop e scout executionId key (getMaxAge e (scout_frequency scout))
                      (similarExecutionsOf w1 (scout_id scout)) s3 = (sg, sL)"
      by (cases "agentLoop e scout executionId key (getMaxAge e (scout_frequency scout))
                      (similarExecutionsOf w1 (scout_id scout)) s3")
    have invL: "mailInv (scout_id scout) (emails_sent w1) sL"
      using loop inv3 by (rule agentLoop_mailInv)
    have res: "tryBody e scout executionId w1 =
                 (case (sg, sL) of
                    (Thrown err, s') \<Rightarrow> (Thrown err, s')
                  | (Normal, s') \<Rightarrow> (Normal, afterLoop e scout executionId
                        (getFirecrawlKeyForUser w1 (user_id scout)) s'))"
      using Inr key ne loop by (simp add: tryBody_def Let_def s3_def)
    show ?thesis
      using assms invL unfolding res
      by (cases sg) (auto intro: afterLoop_mailInv)
  qed
qed

subsection \<open>Stored summaries\<close>

lemma runTool_executions:
  "runTool e scout key maxAgeMs toolName toolArgs s = (r, h, s') \<Longrightarrow>
   scout_executions (world s') = scout_executions (world s)"
  by (auto simp: runTool_def Let_def world_ops split: prod.splits if_splits)

lemma processToolCall_executions:
  "processToolCall e scout executionId key maxAgeMs toolCall s = (sig, s') \<Longrightarrow>
   scout_executions (world s') = scout_executions (world s)"
  apply (auto simp: processToolCall_def Let_def split: sum.splits prod.splits signal.splits)
  apply (auto dest!: trackErrors_world runTool_executions simp: world_ops)
  done

lemma processToolCall_boundsInv:
  "boundsInv eid s \<Longrightarrow> processToolCall e scout executionId key maxAgeMs toolCall s = (sig, s')
   \<Longrightarrow> boundsInv eid s'"
  by (drule processToolCall_executions) (simp add: boundsInv_def)

lemma generateSummary_bounds:
  assumes "\<forall>msgs c. summaryFetch e msgs = HttpOk c \<longrightarrow> length (trim c) \<le> 150"
    and "\<forall>t v. embeddingFetch e t = HttpOk v \<longrightarrow> length v = 1536"
    and "generateSummary e scout r = (t, v)"
  shows "(case t of None \<Rightarrow> True | Some t' \<Rightarrow> length t' \<le> 150)
         \<and> (case v of None \<Rightarrow> True | Some v' \<Rightarrow> length v' = 1536)"
  using assms
  by (auto simp: generateSummary_def split: if_splits fetch_result.splits)

lemma finalizeRun_boundsInv:
  assumes "\<forall>msgs c. summaryFetch e msgs = HttpOk c \<longrightarrow> length (trim c) \<le> 150"
    and "\<forall>t v. embeddingFetch e t = HttpOk v \<longrightarrow> length v = 1536"
    and "boundsInv eid s"
  shows "boundsInv eid (finalizeRun e scout eid similarExecutions finalContent s)"
proof -
  obtain t v where g: "generateSummary e scout (parseFinalContent (JSON_parse e) finalContent) = (t, v)"
    by (cases "generateSummary e scout (parseFinalContent (JSON_parse e) finalContent)")
  have b: "(case t of None \<Rightarrow> True | Some t' \<Rightarrow> length t' \<le> 150)
         \<and> (case v of None \<Rightarrow> True | Some v' \<Rightarrow> length v' = 1536)"
    using assms(1,2) g by (rule generateSummary_bounds)
  show ?thesis
    using assms(3) b g
    by (auto simp: finalizeRun_def Let_def boundsInv_def world_ops now_def withinBounds_def
             split: prod.splits option.splits)
qed

lemma loopBody_boundsInv:
  assumes "\<forall>msgs c. summaryFetch e msgs = HttpOk c \<longrightarrow> length (trim c) \<le> 150"
    and "\<forall>t v. embeddingFetch e t = HttpOk v \<longrightarrow> length v = 1536"
    and "loopBody e scout eid key maxAgeMs similarExecutions s = (sig, s')"
    and "boundsInv eid s"
  shows "boundsInv eid s'"
proof -
  define s1 where "s1 = (if loopCount s > 1 \<and> loopCount s mod 3 = 0
           then s\<lparr>conversationMessages := conversationMessages s @ [reminder (stepNumber s)]\<rparr>
           else s)"
  have inv1: "\<And>m. boundsInv eid (s1\<lparr>conversationMessages := m\<rparr>)"
    using assms(4) by (simp add: boundsInv_def s1_def)
  have inv1': "boundsInv eid s1"
    using assms(4) by (simp add: boundsInv_def s1_def)
  show ?thesis
  proof (cases "chatFetch e (loopCount s1) (conversationMessages s1)")
    case (HttpOk assistantMessage)
    show ?thesis
    proof (cases "am_tool_calls assistantMessage = []")
      case True
      with assms(3) HttpOk have "s' = finalizeRun e scout eid similarExecutions
            (am_content assistantMessage)
            (s1\<lparr>conversationMessages := conversationMessages s1 @ [AssistantMsg assistantMessage]\<rparr>)"
        by (simp add: loopBody_def Let_def s1_def)
      then show ?thesis
        using finalizeRun_boundsInv[OF assms(1,2) inv1] by simp
    next
      case False
      with assms(3) HttpOk have "runToolCalls e scout eid key maxAgeMs
            (am_tool_calls assistantMessage)
            (s1\<lparr>conversationMessages := conversationMessages s1 @ [AssistantMsg assistantMessage]\<rparr>)
            = (sig, s')"
        by (simp add: loopBody_def Let_def s1_def)
      then show ?thesis
        by (rule runToolCalls_invariant[where I="boundsInv eid", rotated 2])
           (auto intro: processToolCall_boundsInv inv1)
    qed
  next
    case (FetchAborted m)
    with assms(3) have "s' = s1" by (simp add: loopBody_def Let_def s1_def)
    with inv1' show ?thesis by simp
  next
    case (FetchFailed err)
    with assms(3) have "s' = s1" by (simp add: loopBody_def Let_def s1_def)
    with inv1' show ?thesis by simp
  next
    case (HttpNotOk st stt body)
    with assms(3) have "s' = s1" by (simp add: loopBody_def Let_def s1_def)
    with inv1' show ?thesis by simp
  next
    case (HttpBadBody err)
    with assms(3) have "s' = s1" by (simp add: loopBody_def Let_def s1_def)
    with inv1' show ?thesis by simp
  qed
qed

lemma agentLoop_boundsInv:
  assumes "\<forall>msgs c. summaryFetch e msgs = HttpOk c \<longrightarrow> length (trim c) \<le> 150"
    and "\<forall>t v. embeddingFetch e t = HttpOk v \<longrightarrow> length v = 1536"
    and "agentLoop e scout eid key maxAgeMs similarExecutions s = (sig, s')"
    and "boundsInv eid s"
  shows "boundsInv eid s'"
proof (rule agentLoop_invariant[where I="boundsInv eid", OF _ assms(4) assms(3)])
  fix s sig s'
  assume inv: "boundsInv eid s"
    and b: "loopBody e scout eid key maxAgeMs similarExecutions
           (s\<lparr>loopCount := loopCount s + 1\<rparr>) = (sig, s')"
  have i: "boundsInv eid (s\<lparr>loopCount := loopCount s + 1\<rparr>)"
    using inv by (simp add: boundsInv_def)
  show "boundsInv eid s'"
    using assms(1,2) b i by (rule loopBody_boundsInv)
qed

lemma afterLoop_boundsInv:
  "boundsInv eid s \<Longrightarrow> boundsInv eid (afterLoop e scout eid kr s)"
  by (auto simp: afterLoop_def Let_def boundsInv_def world_ops now_def withinBounds_def)

lemma catchHandler_boundsInv:
  "boundsInv eid s \<Longrightarrow> boundsInv eid (catchHandler e scout eid err s)"
  by (auto simp: catchHandler_def Let_def boundsInv_def world_ops now_def withinBounds_def)

lemma tryBody_boundsInv:
  assumes "\<forall>msgs c. summaryFetch e msgs = HttpOk c \<longrightarrow> length (trim c) \<le> 150"
    and "\<forall>t v. embeddingFetch e t = HttpOk v \<longrightarrow> length v = 1536"
    and "tryBody e scout eid w1 = (sig, s')"
    and "boundsInv eid (initialState w1)"
  shows "boundsInv eid s'"
proof (cases "getOpenAIConfig (getenv e)")
  case (Inl err)
  with assms(3,4) show ?thesis
    by (auto simp: tryBody_def)
next
  case (Inr cfg)
  show ?thesis
  proof (cases "truthy (apiKey (getFirecrawlKeyForUser w1 (user_id scout)))")
    case False
    with Inr assms(3,4) show ?thesis
      by (auto simp: tryBody_def Let_def truthy_def split: option.splits if_splits)
  next
    case True
    then obtain key where key: "apiKey (getFirecrawlKeyForUser w1 (user_id scout)) = Some key"
      and ne: "key \<noteq> []"
      by (auto simp: truthy_def split: option.splits)
    define s3 where "s3 = (on_world (createStep eid (stepNumber ((initialState w1)\<lparr>stepNumber := 1\<rparr>)) Tool_call
                                (''Initializing agent with ''
                                 @ (if isAzure cfg then ''Azure OpenAI'' else ''OpenAI''))
                                (Some (InitData (chatModel cfg)
                                         (if isAzure cfg then ''azure'' else ''openai'')
                                         (take 200 (systemPromptFor e scout (similarExecutionsOf w1 (scout_id scout))) @ ''...'')))
                                None Running) ((initialState w1)\<lparr>stepNumber := 1\<rparr>))
              \<lparr>conversationMessages :=
                 [SystemMsg (systemPromptFor e scout (similarExecutionsOf w1 (scout_id scout))),
                  UserMsg (userMessageFor e scout)]\<rparr>"
    have inv3: "boundsInv eid s3"
      using assms(4) by (simp add: s3_def boundsInv_def initialState_def world_ops)
    obtain sg sL where loop: "agentLoop e scout eid key (getMaxAge e (scout_frequency scout))
                      (similarExecutionsOf w1 (scout_id scout)) s3 = (sg, sL)"
      by (cases "agentLoop e scout eid key (getMaxAge e (scout_frequency scout))
                      (similarExecutionsOf w1 (scout_id scout)) s3")
    have invL: "boundsInv eid sL"
      using assms(1,2) loop inv3 by (rule agentLoop_boundsInv)
    have res: "tryBody e scout eid w1 =
                 (case (sg, sL) of
                    (Thrown err, s') \<Rightarrow> (Thrown err, s')
                  | (Normal, s') \<Rightarrow> (Normal, afterLoop e scout eid
                        (getFirecrawlKeyForUser w1 (user_id scout)) s'))"
      using Inr key ne loop by (simp add: tryBody_def Let_def s3_def)
    show ?thesis
      using assms(3) invL unfolding res
      by (cases sg) (auto intro: afterLoop_boundsInv)
  qed
qed

lemma insert_boundsInv:
  assumes "\<forall>x\<in>set (scout_executions w). ex_status x = Completed \<longrightarrow> withinBounds x"
  shows "boundsInv (newExecutionId w) (initialState (insertExecution e sid w))"
  using assms newExecutionId_fresh[of _ w]
  by (auto simp: boundsInv_def initialState_def insertExecution_def tick_def withinBounds_def)

subsection \<open>Duplicates and the entry point\<close>



lemma runningExecution_Some:
  assumes "runningExecution w sid = Some running"
  shows "running \<in> set (scout_executions w) \<and> ex_scout_id running = sid \<and> ex_status running = Running
         \<and> (\<forall>x\<in>set (scout_executions w). ex_scout_id x = sid \<and> ex_status x = Running \<longrightarrow>
               ex_created_at x \<le> ex_created_at running)"
proof -
  define rs where "rs = filter (\<lambda>x. ex_scout_id x = sid \<and> ex_status x = Running) (scout_executions w)"
  define srt where "srt = sort_key ex_created_at rs"
  from assms have ne: "rev srt \<noteq> []" and hd: "running = hd (rev srt)"
    by (auto simp: runningExecution_def rs_def srt_def split: list.splits)
  then have last: "running = last srt" and ne': "srt \<noteq> []"
    by (simp_all add: hd_rev)
  have mem: "running \<in> set srt" using last ne' by simp
  then have "running \<in> set rs" by (simp add: srt_def)
  then have a: "running \<in> set (scout_executions w) \<and> ex_scout_id running = sid \<and> ex_status running = Running"
    by (simp add: rs_def)
  have sorted: "sorted (map ex_created_at srt)" by (simp add: srt_def)
  have "\<forall>x\<in>set srt. ex_created_at x \<le> ex_created_at (last srt)"
  proof
    fix x assume "x \<in> set srt"
    then obtain i where i: "i < length srt" "srt ! i = x" by (auto simp: in_set_conv_nth)
    have "map ex_created_at srt ! i \<le> map ex_created_at srt ! (length srt - 1)"
      using sorted i(1) by (intro sorted_nth_mono) auto
    then show "ex_created_at x \<le> ex_created_at (last srt)"
      using i ne' by (simp add: last_conv_nth)
  qed
  then have b: "\<forall>x\<in>set (scout_executions w). ex_scout_id x = sid \<and> ex_status x = Running \<longrightarrow>
               ex_created_at x \<le> ex_created_at running"
    by (simp add: last srt_def rs_def)
  from a b show ?thesis by simp
qed

lemma sort_key_Nil_iff: "(sort_key f xs = []) = (xs = [])"
proof -
  have "(sort_key f xs = []) = (length (sort_key f xs) = 0)" by (simp only: length_0_conv)
  also have "\<dots> = (length xs = 0)" by (simp only: length_sort)
  also have "\<dots> = (xs = [])" by (simp only: length_0_conv)
  finally show ?thesis .
qed

lemma runningExecution_None:
  "(runningExecution w sid = None) = (\<forall>x\<in>set (scout_executions w). \<not> (ex_scout_id x = sid \<and> ex_status x = Running))"
proof -
  define rs where "rs = filter (\<lambda>x. ex_scout_id x = sid \<and> ex_status x = Running) (scout_executions w)"
  have "(runningExecution w sid = None) = (rev (sort_key ex_created_at rs) = [])"
    unfolding runningExecution_def rs_def[symmetric]
    by (cases "rev (sort_key ex_created_at rs)") simp_all
  also have "\<dots> = (rs = [])"
    by (simp only: rev_is_Nil_conv sort_key_Nil_iff)
  also have "\<dots> = (\<forall>x\<in>set (scout_executions w). \<not> (ex_scout_id x = sid \<and> ex_status x = Running))"
    unfolding rs_def by (simp only: filter_empty_conv)
  finally show ?thesis .
qed

lemma serve_eval_defs:
  "fetchScout pausedWorld ''s1'' = Some (exampleScout\<lparr>is_active := False\<rparr>)"
  "fetchScout runningWorld ''s1'' = Some exampleScout"
  "runningExecution pausedWorld ''s1'' = Some runningRow"
  "runningExecution runningWorld ''s1'' = Some runningRow"
  by (simp_all add: fetchScout_def runningExecution_def pausedWorld_def runningWorld_def exampleWorld_def
        exampleScout_def runningRow_def)

subsection \<open>The worked runs\<close>

lemma base_run:
  "case executeScoutAgent baseEnv exampleScout exampleWorld of
     (sig, s) \<Rightarrow> sig = Thrown (Error ''OpenAI API error: overloaded'')
        \<and> map ex_status (scout_executions (world s)) = [Failed]
        \<and> map consecutive_failures (scouts (world s)) = [1]
        \<and> map last_run_at (scouts (world s)) = [Some 1002]"
  by (simp add: run_eval baseEnv_def exampleScout_def exampleWorld_def searchCall_def)

lemma base_run_reads:
  "clock_reads (world (snd (executeScoutAgent baseEnv exampleScout exampleWorld))) = 3"
  by (simp add: run_eval example_defs)

lemma busy_run:
  "case executeScoutAgent busyEnv exampleScout exampleWorld of
     (sig, s) \<Rightarrow> sig = Normal \<and> loopCount s = 7 \<and> continueLoop s
        \<and> map ex_status (scout_executions (world s)) = [Completed]
        \<and> map ex_results_summary (scout_executions (world s)) = [Some incompleteSummary]
        \<and> map consecutive_failures (scouts (world s)) = [0]"
  by (simp add: run_eval busyEnv_def baseEnv_def exampleScout_def exampleWorld_def searchCall_def)

lemma failing_run:
  "case executeScoutAgent failingSearchEnv exampleScout exampleWorld of
     (sig, s) \<Rightarrow> sig = Thrown (Error (''Too many consecutive tool errors (3). Last error: ''
                                    @ ''Firecrawl search failed: 500 Internal Server Error - try later''))
        \<and> loopCount s = 3 \<and> consecutiveErrors s = 3
        \<and> map ex_status (scout_executions (world s)) = [Failed]
        \<and> map consecutive_failures (scouts (world s)) = [1]"
  by (simp add: run_eval failingSearchEnv_def busyEnv_def baseEnv_def exampleScout_def exampleWorld_def searchCall_def)

lemma credits_run:
  "case executeScoutAgent creditsEnv exampleScout exampleWorld of
     (sig, s) \<Rightarrow> sig = Normal
        \<and> map ex_status (scout_executions (world s)) = [Completed]
        \<and> map ex_error_message (scout_executions (world s)) = [None]
        \<and> map consecutive_failures (scouts (world s)) = [0]
        \<and> map is_active (scouts (world s)) = [False]
        \<and> map cred_status (user_preferences (world s)) = [Invalid]
        \<and> loopCount s = 2"
  by (simp add: executeScoutAgent_def tryBody_def getOpenAIConfig_def creditsEnv_def baseEnv_def
        exampleScout_def exampleWorld_def searchCall_def truthy_def str_or_def
        getFirecrawlKeyForUser_def insertExecution_def newExecutionId_def now_def tick_def
        similarExecutionsOf_def recentExecutions_def initialState_def on_world_def createStep_def
        agentLoop_unfold agentLoop_stop maxLoops_def loopBody_def Let_def
        processToolCall_def runTool_def callTool_def executeSearchTool_def searchTry_def
        searchPayload_def num_or_def payload_headers_def payload_waitFor_def locationToUse_def
        firecrawlOptionsOf_def Error_def result_error_def error_includes_def show_402
        markFirecrawlKeyInvalid_def updateScouts_def updateStep_def trackErrors_def
        isBlacklistedError_def maxConsecutiveErrors_def js_or_def show_opt_def
        finalizeRun_def parseFinalContent_def generateSummary_def detectDuplicate_def
        updateExecution_def afterLoop_def logFirecrawlUsage_def)

lemma credits_steps:
  "map st_error_message (scout_execution_steps (world (snd (executeScoutAgent creditsEnv exampleScout exampleWorld))))
     = [None, Some creditsExhaustedMessage, None]
   \<and> map st_status (scout_execution_steps (world (snd (executeScoutAgent creditsEnv exampleScout exampleWorld))))
     = [Running, Failed, Completed]
   \<and> consecutiveErrors (snd (executeScoutAgent creditsEnv exampleScout exampleWorld)) = 1"
  by (simp add: executeScoutAgent_def tryBody_def getOpenAIConfig_def creditsEnv_def baseEnv_def
        exampleScout_def exampleWorld_def searchCall_def truthy_def str_or_def
        getFirecrawlKeyForUser_def insertExecution_def newExecutionId_def now_def tick_def
        similarExecutionsOf_def recentExecutions_def initialState_def on_world_def createStep_def
        agentLoop_unfold agentLoop_stop maxLoops_def loopBody_def Let_def
        processToolCall_def runTool_def callTool_def executeSearchTool_def searchTry_def
        searchPayload_def num_or_def payload_headers_def payload_waitFor_def locationToUse_def
        firecrawlOptionsOf_def Error_def result_error_def error_includes_def show_402
        markFirecrawlKeyInvalid_def updateScouts_def updateStep_def trackErrors_def
        isBlacklistedError_def maxConsecutiveErrors_def js_or_def show_opt_def
        finalizeRun_def parseFinalContent_def generateSummary_def detectDuplicate_def
        updateExecution_def afterLoop_def logFirecrawlUsage_def)

lemma done_run:
  "case executeScoutAgent doneEnv exampleScout exampleWorld of
     (sig, s) \<Rightarrow> sig = Normal \<and> scoutResponse s = Some foundResponse \<and> \<not> isDuplicate s
        \<and> map ex_status (scout_executions (world s)) = [Completed]
        \<and> map ex_summary_text (scout_executions (world s)) = [None]"
  by (simp add: run_eval example_defs clean_eval)

lemma long_run:
  "case executeScoutAgent longEnv exampleScout exampleWorld of
     (sig, s) \<Rightarrow> sig = Normal
        \<and> map ex_status (scout_executions (world s)) = [Completed]
        \<and> map ex_summary_text (scout_executions (world s)) = [Some (replicate 151 (CHR ''a''))]"
  by (simp add: run_eval example_defs clean_eval longEnv_def)

lemma dup_run:
  "case executeScoutAgent dupEnv exampleScout exampleWorld of
     (sig, s) \<Rightarrow> sig = Normal
        \<and> map ex_status (scout_executions (world s)) = [Completed]
        \<and> map ex_summary_text (scout_executions (world s)) = [Some ''A new model was released.'']
        \<and> map ex_summary_embedding (scout_executions (world s)) = [Some unitEmbedding]"
  by (simp add: run_eval example_defs clean_eval dupEnv_def)

section \<open>A tool error carrying 402\<close>

text \<open>
  Claim C1 says that a tool error whose message contains 402 marks the key invalid,
  deactivates every scout of the user and aborts the run at once, the execution being
  recorded as failed and \<open>consecutive_failures\<close> incremented.  The first two happen.  The
  \<open>throw\<close> that should abort the run stands inside the \<open>try\<close> around the tool call, whose
  \<open>catch\<close> turns it into an ordinary tool error, so the run goes on.  Run on
  \<open>creditsEnv\<close>: the only search answers 402, the model then answers without tool calls;
  the run ends normally after two turns with one consecutive error counted; the search
  step carries the credits-exhausted message, the execution is completed with no error
  message, the key is invalid, the scout is inactive and its \<open>consecutive_failures\<close> is 0.
\<close>

theorem credits_exhausted_run_continues:
  "fst (executeScoutAgent creditsEnv exampleScout exampleWorld) = Normal
   \<and> loopCount (snd (executeScoutAgent creditsEnv exampleScout exampleWorld)) = 2
   \<and> consecutiveErrors (snd (executeScoutAgent creditsEnv exampleScout exampleWorld)) = 1
   \<and> map st_error_message
        (scout_execution_steps (world (snd (executeScoutAgent creditsEnv exampleScout exampleWorld))))
       = [None, Some creditsExhaustedMessage, None]
   \<and> map ex_status (scout_executions (world (snd (executeScoutAgent creditsEnv exampleScout exampleWorld))))
       = [Completed]
   \<and> map ex_error_message (scout_executions (world (snd (executeScoutAgent creditsEnv exampleScout exampleWorld))))
       = [None]
   \<and> map consecutive_failures (scouts (world (snd (executeScoutAgent creditsEnv exampleScout exampleWorld))))
       = [0]
   \<and> map is_active (scouts (world (snd (executeScoutAgent creditsEnv exampleScout exampleWorld))))
       = [False]
   \<and> map cred_status (user_preferences (world (snd (executeScoutAgent creditsEnv exampleScout exampleWorld))))
       = [Invalid]"
  using credits_run credits_steps by (simp add: case_prod_beta)

section \<open>An execution already running\<close>

text \<open>
  Claim C2, as amended.  A request that is not a CORS preflight, with the store
  configured, naming a scout that exists, is active and complete and has a running
  execution, is answered 409 with the id of the scout's latest running execution, and
  the world is left as it was.  Whatever the answer, a request naming a scout that has a
  running execution leaves the world as it was: no execution or step is created and no
  scout is changed.
\<close>

theorem running_execution_refused:
  "(req_method req \<noteq> ''OPTIONS'' \<and> truthy (getenv e ''SUPABASE_URL'')
      \<and> truthy (getenv e ''SUPABASE_SERVICE_ROLE_KEY'')
      \<and> requestScoutId req = Some sid \<and> sid \<noteq> [] \<and> fetchScout w sid = Some scout
      \<and> is_active scout \<and> isComplete scout \<and> runningExecution w sid = Some running
    \<longrightarrow> serve e req w =
          (\<lparr>resp_status = 409,
            resp_body = BodyConflict ''Scout execution already in progress'' (scout_id scout) (ex_id running)\<rparr>,
           w)
        \<and> running \<in> set (scout_executions w) \<and> ex_scout_id running = sid \<and> ex_status running = Running)
   \<and> (requestScoutId req = Some sid
       \<and> (\<exists>x\<in>set (scout_executions w). ex_scout_id x = sid \<and> ex_status x = Running)
    \<longrightarrow> snd (serve e req w) = w)"
proof (intro conjI impI)
  assume h: "req_method req \<noteq> ''OPTIONS'' \<and> truthy (getenv e ''SUPABASE_URL'')
      \<and> truthy (getenv e ''SUPABASE_SERVICE_ROLE_KEY'')
      \<and> requestScoutId req = Some sid \<and> sid \<noteq> [] \<and> fetchScout w sid = Some scout
      \<and> is_active scout \<and> isComplete scout \<and> runningExecution w sid = Some running"
  then show "serve e req w =
          (\<lparr>resp_status = 409,
            resp_body = BodyConflict ''Scout execution already in progress'' (scout_id scout) (ex_id running)\<rparr>,
           w)"
    by (simp add: serve_def Let_def truthy_def str_or_def)
  from h have "runningExecution w sid = Some running" by simp
  then have "running \<in> set (scout_executions w) \<and> ex_scout_id running = sid \<and> ex_status running = Running
         \<and> (\<forall>x\<in>set (scout_executions w). ex_scout_id x = sid \<and> ex_status x = Running \<longrightarrow>
               ex_created_at x \<le> ex_created_at running)"
    by (rule runningExecution_Some)
  then show "running \<in> set (scout_executions w)" "ex_scout_id running = sid" "ex_status running = Running"
    by simp_all
next
  assume h: "requestScoutId req = Some sid
       \<and> (\<exists>x\<in>set (scout_executions w). ex_scout_id x = sid \<and> ex_status x = Running)"
  then have r: "runningExecution w sid \<noteq> None"
    using runningExecution_None[of w sid] by blast
  have "str_or (Some sid) [] = sid" by (simp add: str_or_def)
  from r obtain running where "runningExecution w sid = Some running" by auto
  with h show "snd (serve e req w) = w"
    by (simp add: serve_def Let_def error500_def str_or_def truthy_def split: option.splits)
qed

text \<open>
  Claim C2 as stated fails: the checks that the scout is active and complete come before
  the check for a running execution.  An inactive scout with a running execution is
  answered 500, not 409.
\<close>

theorem inactive_scout_with_running_execution_gets_500:
  "runningRow \<in> set (scout_executions pausedWorld) \<and> ex_scout_id runningRow = ''s1''
   \<and> ex_status runningRow = Running
   \<and> requestScoutId postRequest = Some ''s1''
   \<and> resp_status (fst (serve baseEnv postRequest pausedWorld)) = 500
   \<and> resp_status (fst (serve baseEnv postRequest pausedWorld)) \<noteq> 409"
  by (simp add: serve_def Let_def serve_eval_defs requestScoutId_def postRequest_def truthy_def
        str_or_def baseEnv_def error500_def)
     (simp add: pausedWorld_def runningWorld_def runningRow_def)

text \<open>
  Witness for C2: the same request on the active scout with a running execution is
  answered 409 with that execution's id, and on the inactive one leaves the world as it
  was.
\<close>

theorem running_execution_refused_witness:
  "serve baseEnv postRequest runningWorld =
     (\<lparr>resp_status = 409,
       resp_body = BodyConflict ''Scout execution already in progress'' ''s1'' 7\<rparr>, runningWorld)
   \<and> snd (serve baseEnv postRequest pausedWorld) = pausedWorld"
proof -
  have h: "req_method postRequest \<noteq> ''OPTIONS'' \<and> truthy (getenv baseEnv ''SUPABASE_URL'')
      \<and> truthy (getenv baseEnv ''SUPABASE_SERVICE_ROLE_KEY'')
      \<and> requestScoutId postRequest = Some ''s1'' \<and> ''s1'' \<noteq> [] \<and> fetchScout runningWorld ''s1'' = Some exampleScout
      \<and> is_active exampleScout \<and> isComplete exampleScout \<and> runningExecution runningWorld ''s1'' = Some runningRow"
    by (simp add: serve_eval_defs requestScoutId_def postRequest_def truthy_def baseEnv_def)
       (simp add: exampleScout_def isComplete_def)
  have a: "serve baseEnv postRequest runningWorld =
     (\<lparr>resp_status = 409,
       resp_body = BodyConflict ''Scout execution already in progress'' ''s1'' 7\<rparr>, runningWorld)"
    using h running_execution_refused[of postRequest baseEnv "''s1''" runningWorld exampleScout runningRow]
    by (simp add: exampleScout_def runningRow_def)
  have h2: "requestScoutId postRequest = Some ''s1''
       \<and> (\<exists>x\<in>set (scout_executions pausedWorld). ex_scout_id x = ''s1'' \<and> ex_status x = Running)"
    by (simp add: requestScoutId_def postRequest_def truthy_def pausedWorld_def runningWorld_def runningRow_def)
  have b: "snd (serve baseEnv postRequest pausedWorld) = pausedWorld"
    using h2 running_execution_refused[of postRequest baseEnv "''s1''" pausedWorld exampleScout runningRow]
    by blast
  from a b show ?thesis by simp
qed

section \<open>The success email\<close>

text \<open>
  Claim C3.  Over a whole run of \<open>executeScoutAgent\<close>, whatever the environment does: the
  emails sent are those sent before, followed by exactly one for the final response when
  that response has \<open>taskCompleted\<close> and the run was not marked duplicate, and by none
  otherwise.  So an email is sent if and only if there is a final response with
  \<open>taskCompleted\<close> and the run is not a duplicate.  The final response is the
  \<open>scoutResponse\<close> of the final branch: the parsed content of the message without tool
  calls, with the duplicate note when there is one.
\<close>

theorem email_iff_completed_and_new:
  assumes "executeScoutAgent e scout w = (sig, s')"
  shows "emails_sent (world s') =
           emails_sent w @ (case scoutResponse s' of
                              None \<Rightarrow> []
                            | Some r \<Rightarrow> if taskCompleted r \<and> \<not> isDuplicate s'
                                        then [(scout_id scout, r)] else [])
         \<and> ((emails_sent (world s') \<noteq> emails_sent w)
              = (\<exists>r. scoutResponse s' = Some r \<and> taskCompleted r \<and> \<not> isDuplicate s'))"
proof -
  have inv: "mailInv (scout_id scout) (emails_sent w) s'"
  proof (cases "insertFails e")
    case True
    with assms show ?thesis
      by (auto simp: executeScoutAgent_def initialState_mailInv)
  next
    case False
    obtain sg s1 where t: "tryBody e scout (newExecutionId w) (insertExecution e (scout_id scout) w) = (sg, s1)"
      by (cases "tryBody e scout (newExecutionId w) (insertExecution e (scout_id scout) w)")
    have "mailInv (scout_id scout) (emails_sent (insertExecution e (scout_id scout) w)) s1"
      using t by (rule tryBody_mailInv)
    then have i1: "mailInv (scout_id scout) (emails_sent w) s1"
      by (simp add: insertExecution_def tick_def)
    show ?thesis
      using assms False t i1
      by (cases sg) (auto simp: executeScoutAgent_def Let_def intro: catchHandler_mailInv)
  qed
  then have eq: "emails_sent (world s') =
           emails_sent w @ (case scoutResponse s' of
                              None \<Rightarrow> []
                            | Some r \<Rightarrow> if taskCompleted r \<and> \<not> isDuplicate s'
                                        then [(scout_id scout, r)] else [])"
    by (simp add: mailInv_def)
  then show ?thesis
    by (auto split: option.splits)
qed

text \<open>
  Witness for C3: the run on \<open>doneEnv\<close> sends one email with the final response; the run
  on \<open>busyEnv\<close>, which never reaches a final message, sends none.
\<close>

theorem email_iff_completed_and_new_witness:
  "emails_sent (world (snd (executeScoutAgent doneEnv exampleScout exampleWorld)))
     = [(''s1'', foundResponse)]
   \<and> emails_sent (world (snd (executeScoutAgent busyEnv exampleScout exampleWorld))) = []"
proof -
  let ?R = "executeScoutAgent doneEnv exampleScout exampleWorld"
  let ?B = "executeScoutAgent busyEnv exampleScout exampleWorld"
  have ev: "scoutResponse (snd ?R) = Some foundResponse" "\<not> isDuplicate (snd ?R)"
    using done_run by (simp_all add: case_prod_beta)
  have "?R = (fst ?R, snd ?R)" by simp
  from email_iff_completed_and_new[OF this] ev
  have a: "emails_sent (world (snd ?R)) = [(''s1'', foundResponse)]"
    by (simp add: exampleWorld_def exampleScout_def foundResponse_def)
  have evB: "continueLoop (snd ?B)" "fst ?B = Normal"
    using busy_run by (simp_all add: case_prod_beta)
  have rb: "?B = (fst ?B, snd ?B)" by simp
  have "scoutResponse (snd ?B) = None"
    by (simp add: run_eval example_defs busyEnv_def)
  with email_iff_completed_and_new[OF rb]
  have b: "emails_sent (world (snd ?B)) = []"
    by (simp add: exampleWorld_def)
  from a b show ?thesis by simp
qed

section \<open>Duplicate detection\<close>




section \<open>Stored summaries\<close>

text \<open>
  Claim C5, as amended.  The executor stores the trimmed reply of the summarising call
  and the vector the embeddings call returns, as they are.  Provided every such reply has
  at most 150 characters once trimmed and every such vector has 1536 dimensions, a run
  keeps every completed execution within the bounds: \<open>summary_text\<close> null or at most 150
  characters, \<open>summary_embedding\<close> null or of 1536 dimensions.
\<close>

theorem stored_summary_within_bounds:
  assumes "\<forall>msgs c. summaryFetch e msgs = HttpOk c \<longrightarrow> length (trim c) \<le> 150"
    and "\<forall>t v. embeddingFetch e t = HttpOk v \<longrightarrow> length v = 1536"
    and "\<forall>x\<in>set (scout_executions w). ex_status x = Completed \<longrightarrow> withinBounds x"
    and "executeScoutAgent e scout w = (sig, s')"
  shows "\<forall>x\<in>set (scout_executions (world s')). ex_status x = Completed \<longrightarrow> withinBounds x"
proof (cases "insertFails e")
  case True
  with assms(3,4) show ?thesis
    by (auto simp: executeScoutAgent_def initialState_def)
next
  case False
  obtain sg s1 where t: "tryBody e scout (newExecutionId w) (insertExecution e (scout_id scout) w) = (sg, s1)"
    by (cases "tryBody e scout (newExecutionId w) (insertExecution e (scout_id scout) w)")
  have i1: "boundsInv (newExecutionId w) s1"
    using assms(1,2) t insert_boundsInv[OF assms(3)] by (rule tryBody_boundsInv)
  have "boundsInv (newExecutionId w) s'"
    using assms(4) False t i1
    by (cases sg) (auto simp: executeScoutAgent_def Let_def intro: catchHandler_boundsInv)
  then show ?thesis by (simp add: boundsInv_def)
qed

text \<open>
  Claim C5 as stated fails: the limit of 150 characters is only asked of the model in the
  prompt.  On \<open>longEnv\<close> the summarising call replies with 151 characters, and the
  completed execution stores all 151.
\<close>

theorem long_summary_is_stored:
  "map ex_status (scout_executions (world (snd (executeScoutAgent longEnv exampleScout exampleWorld))))
     = [Completed]
   \<and> map (map_option length \<circ> ex_summary_text)
        (scout_executions (world (snd (executeScoutAgent longEnv exampleScout exampleWorld))))
     = [Some 151]
   \<and> \<not> (151 \<le> (150::nat))"
proof -
  let ?R = "executeScoutAgent longEnv exampleScout exampleWorld"
  have "map ex_status (scout_executions (world (snd ?R))) = [Completed]"
    and t: "map ex_summary_text (scout_executions (world (snd ?R))) = [Some (replicate 151 (CHR ''a''))]"
    using long_run by (simp_all add: case_prod_beta)
  moreover have "map (map_option length \<circ> ex_summary_text) (scout_executions (world (snd ?R)))
      = map (map_option length) (map ex_summary_text (scout_executions (world (snd ?R))))"
    by simp
  ultimately show ?thesis by simp
qed

text \<open>
  Witness for C5: on \<open>dupEnv\<close>, whose replies are within the bounds, the completed
  execution is within the bounds.
\<close>

theorem stored_summary_within_bounds_witness:
  "map ex_status (scout_executions (world (snd (executeScoutAgent dupEnv exampleScout exampleWorld))))
     = [Completed]
   \<and> map withinBounds (scout_executions (world (snd (executeScoutAgent dupEnv exampleScout exampleWorld))))
     = [True]"
proof -
  let ?R = "executeScoutAgent dupEnv exampleScout exampleWorld"
  have st: "map ex_status (scout_executions (world (snd ?R))) = [Completed]"
    using dup_run by (simp add: case_prod_beta)
  then obtain x where x: "scout_executions (world (snd ?R)) = [x]" and c: "ex_status x = Completed"
    using singleton_map by blast
  have h1: "\<forall>msgs c. summaryFetch dupEnv msgs = HttpOk c \<longrightarrow> length (trim c) \<le> 150"
    by (simp add: dupEnv_def doneEnv_def baseEnv_def trim_def is_space_def)
  have h2: "\<forall>t v. embeddingFetch dupEnv t = HttpOk v \<longrightarrow> length v = 1536"
    by (auto simp: dupEnv_def doneEnv_def baseEnv_def unitEmbedding_def)
  have h3: "\<forall>x\<in>set (scout_executions exampleWorld). ex_status x = Completed \<longrightarrow> withinBounds x"
    by (simp add: exampleWorld_def)
  have run: "?R = (fst ?R, snd ?R)" by simp
  from stored_summary_within_bounds[OF h1 h2 h3 run] x c have "withinBounds x" by simp
  with st x show ?thesis by simp
qed

section \<open>The iteration limit\<close>

text \<open>
  Claim C6.  When a run ends without a throw after seven turns of the loop, none of which
  reached the final branch (\<open>continueLoop\<close> still holds), its execution row exists, is
  completed and carries the synthetic summary (\<open>taskCompleted\<close> false, status partial,
  the iteration-limit message), and every row of the scout has \<open>consecutive_failures\<close> 0.
\<close>

theorem iteration_limit_counts_as_completion:
  assumes "executeScoutAgent e scout w = (Normal, s')"
    and "loopCount s' = 7" and "continueLoop s'"
  shows "(\<exists>x\<in>set (scout_executions (world s')). ex_id x = newExecutionId w)
         \<and> (\<forall>x\<in>set (scout_executions (world s')). ex_id x = newExecutionId w \<longrightarrow>
               ex_status x = Completed \<and> ex_results_summary x = Some incompleteSummary)
         \<and> (\<forall>x\<in>set (scouts (world s')). scout_id x = scout_id scout \<longrightarrow>
               consecutive_failures x = 0)
         \<and> map scout_id (scouts (world s')) = map scout_id (scouts w)"
proof (intro conjI)
  have nz: "loopCount s' \<noteq> 0" using assms(2) by simp
  have ins: "\<not> insertFails e" using assms(1) nz by (rule executeScoutAgent_Normal(1))
  obtain kr s where s': "s' = afterLoop e scout (newExecutionId w) kr s"
    using executeScoutAgent_Normal(2)[OF assms(1) nz] by blast
  have lc: "loopCount s \<ge> maxLoops"
    using assms(2) s' by (simp add: afterLoop_frame maxLoops_def)
  have ids: "map ex_id (scout_executions (world s')) = map ex_id (scout_executions w) @ [newExecutionId w]"
    using assms(1) ins by (rule executeScoutAgent_rows(1))
  then have "newExecutionId w \<in> set (map ex_id (scout_executions (world s')))" by simp
  then show "\<exists>x\<in>set (scout_executions (world s')). ex_id x = newExecutionId w"
    by (simp add: image_iff) metis
  show "map scout_id (scouts (world s')) = map scout_id (scouts w)"
    using assms(1) ins by (rule executeScoutAgent_rows(2))
  show "\<forall>x\<in>set (scout_executions (world s')). ex_id x = newExecutionId w \<longrightarrow>
               ex_status x = Completed \<and> ex_results_summary x = Some incompleteSummary"
    unfolding s' using lc by (rule afterLoop_limit)
  show "\<forall>x\<in>set (scouts (world s')). scout_id x = scout_id scout \<longrightarrow>
               consecutive_failures x = 0"
    unfolding s' by (rule afterLoop_scouts)
qed

text \<open>
  Witness for C6: the run on \<open>busyEnv\<close>, where the model asks for a search on each of
  the seven turns.
\<close>

theorem iteration_limit_counts_as_completion_witness:
  "fst (executeScoutAgent busyEnv exampleScout exampleWorld) = Normal
   \<and> loopCount (snd (executeScoutAgent busyEnv exampleScout exampleWorld)) = 7
   \<and> continueLoop (snd (executeScoutAgent busyEnv exampleScout exampleWorld))
   \<and> (\<exists>x. x \<in> set (scout_executions (world (snd (executeScoutAgent busyEnv exampleScout exampleWorld))))
          \<and> ex_status x = Completed \<and> ex_results_summary x = Some incompleteSummary)
   \<and> (\<exists>x. scouts (world (snd (executeScoutAgent busyEnv exampleScout exampleWorld))) = [x]
          \<and> consecutive_failures x = 0)"
proof -
  let ?R = "executeScoutAgent busyEnv exampleScout exampleWorld"
  have ev: "fst ?R = Normal" "loopCount (snd ?R) = 7" "continueLoop (snd ?R)"
    using busy_run by (simp_all add: case_prod_beta)
  then have run: "?R = (Normal, snd ?R)"
    by (simp add: prod_eq_iff)
  note th = iteration_limit_counts_as_completion[OF run ev(2) ev(3)]
  from th obtain y where y: "y \<in> set (scout_executions (world (snd ?R)))"
    "ex_status y = Completed" "ex_results_summary y = Some incompleteSummary"
    by blast
  from th have "map scout_id (scouts (world (snd ?R))) = [''s1'']"
    by (simp add: exampleWorld_def exampleScout_def)
  then obtain x where x: "scouts (world (snd ?R)) = [x]" and sid: "scout_id x = ''s1''"
    using singleton_map by blast
  from th x sid have "consecutive_failures x = 0"
    by (simp add: exampleScout_def)
  with ev x y show ?thesis by blast
qed

section \<open>After a failed run\<close>

text \<open>
  Claim C7.  When a run fails (the outer \<open>catch\<close> received an error), every row of the
  scout has \<open>last_run_at\<close> equal to the clock's last reading, \<open>consecutive_failures\<close> one
  more than the scout's count when the run began, and is inactive when that count has
  reached 3; so a row left with 3 or more failures is inactive.  No scout row is added
  or removed.
\<close>

theorem failed_run_counts_failure:
  assumes "executeScoutAgent e scout w = (Thrown err, s')"
  shows "(\<forall>x\<in>set (scouts (world s')). scout_id x = scout_id scout \<longrightarrow>
            last_run_at x = Some (clock e (clock_reads (world s') - 1))
            \<and> consecutive_failures x = consecutive_failures scout + 1
            \<and> (consecutive_failures scout + 1 \<ge> 3 \<longrightarrow> \<not> is_active x)
            \<and> (consecutive_failures x \<ge> 3 \<longrightarrow> \<not> is_active x))
         \<and> map scout_id (scouts (world s')) = map scout_id (scouts w)"
proof
  from assms obtain s where s': "s' = catchHandler e scout (newExecutionId w) err s"
    using executeScoutAgent_Thrown(2) by blast
  show "\<forall>x\<in>set (scouts (world s')). scout_id x = scout_id scout \<longrightarrow>
            last_run_at x = Some (clock e (clock_reads (world s') - 1))
            \<and> consecutive_failures x = consecutive_failures scout + 1
            \<and> (consecutive_failures scout + 1 \<ge> 3 \<longrightarrow> \<not> is_active x)
            \<and> (consecutive_failures x \<ge> 3 \<longrightarrow> \<not> is_active x)"
    unfolding s' by (rule catchHandler_scouts)
next
  have "\<not> insertFails e" using assms by (rule executeScoutAgent_Thrown(1))
  with assms show "map scout_id (scouts (world s')) = map scout_id (scouts w)"
    by (rule executeScoutAgent_rows(2))
qed

text \<open>
  Witness for C7: the run on \<open>baseEnv\<close>, whose chat endpoint is down.
\<close>

theorem failed_run_counts_failure_witness:
  "fst (executeScoutAgent baseEnv exampleScout exampleWorld) = Thrown (Error ''OpenAI API error: overloaded'')
   \<and> (\<exists>x. scouts (world (snd (executeScoutAgent baseEnv exampleScout exampleWorld))) = [x]
          \<and> consecutive_failures x = consecutive_failures exampleScout + 1
          \<and> last_run_at x = Some 1002)"
proof -
  let ?R = "executeScoutAgent baseEnv exampleScout exampleWorld"
  have ev: "fst ?R = Thrown (Error ''OpenAI API error: overloaded'')"
    using base_run by (simp add: case_prod_beta)
  then have run: "?R = (Thrown (Error ''OpenAI API error: overloaded''), snd ?R)"
    by (simp add: prod_eq_iff)
  note th = failed_run_counts_failure[OF run]
  from th have "map scout_id (scouts (world (snd ?R))) = [''s1'']"
    by (simp add: exampleWorld_def exampleScout_def)
  then obtain x where x: "scouts (world (snd ?R)) = [x]" and sid: "scout_id x = ''s1''"
    using singleton_map by blast
  from th x sid have "consecutive_failures x = consecutive_failures exampleScout + 1
      \<and> last_run_at x = Some (clock baseEnv (clock_reads (world (snd ?R)) - 1))"
    by (simp add: exampleScout_def)
  moreover have "clock baseEnv 2 = 1002" by (simp add: baseEnv_def)
  ultimately have "consecutive_failures x = consecutive_failures exampleScout + 1 \<and> last_run_at x = Some 1002"
    by (simp add: base_run_reads)
  with ev x show ?thesis by simp
qed

section \<open>Consecutive tool errors\<close>

text \<open>
  Claim C8.  In the error accounting after a tool call: an error on a scrape of a
  blacklisted URL leaves \<open>consecutiveErrors\<close> as it is; any other error adds one, and
  throws the too-many-errors error carrying this tool error when the count reaches 3; a
  call without error sets the count to 0.  \<open>hasError\<close> is exactly that the tool result
  has an error.  A throw in a tool call ends the calls of the turn and the loop, and a
  run that throws marks its execution failed with the message thrown.
\<close>

theorem consecutive_error_accounting:
  "(hasError \<and> isBlacklistedError e toolName toolArgs \<longrightarrow>
      trackErrors e toolName toolArgs toolResult hasError s = (Normal, s))
   \<and> (hasError \<and> \<not> isBlacklistedError e toolName toolArgs \<and> consecutiveErrors s + 1 < 3 \<longrightarrow>
      trackErrors e toolName toolArgs toolResult hasError s
        = (Normal, s\<lparr>consecutiveErrors := consecutiveErrors s + 1\<rparr>))
   \<and> (hasError \<and> \<not> isBlacklistedError e toolName toolArgs \<and> consecutiveErrors s + 1 \<ge> 3 \<longrightarrow>
      trackErrors e toolName toolArgs toolResult hasError s
        = (Thrown (Error (''Too many consecutive tool errors (3). Last error: ''
                          @ show_opt (result_error toolResult) ''undefined'')),
           s\<lparr>consecutiveErrors := consecutiveErrors s + 1\<rparr>))
   \<and> (\<not> hasError \<longrightarrow>
      trackErrors e toolName toolArgs toolResult hasError s = (Normal, s\<lparr>consecutiveErrors := 0\<rparr>))
   \<and> (runTool e scout key maxAgeMs toolName toolArgs s = (toolResult, hasError, s1) \<longrightarrow>
      hasError = (result_error toolResult \<noteq> None))
   \<and> (processToolCall e scout executionId key maxAgeMs toolCall s = (Thrown err, s2) \<longrightarrow>
      runToolCalls e scout executionId key maxAgeMs (toolCall # rest) s = (Thrown err, s2))
   \<and> (continueLoop s \<and> loopCount s < maxLoops
       \<and> loopBody e scout executionId key maxAgeMs similarExecutions (s\<lparr>loopCount := loopCount s + 1\<rparr>)
           = (Thrown err, s2) \<longrightarrow>
      agentLoop e scout executionId key maxAgeMs similarExecutions s = (Thrown err, s2))
   \<and> (executeScoutAgent e scout w = (Thrown err, s') \<longrightarrow>
      (\<exists>x\<in>set (scout_executions (world s')). ex_id x = newExecutionId w)
      \<and> (\<forall>x\<in>set (scout_executions (world s')). ex_id x = newExecutionId w \<longrightarrow>
            ex_status x = Failed \<and> ex_error_message x = Some (err_message err)))"
proof (intro conjI impI)
  assume run: "executeScoutAgent e scout w = (Thrown err, s')"
  from run obtain s0 where s': "s' = catchHandler e scout (newExecutionId w) err s0"
    using executeScoutAgent_Thrown(2) by blast
  have ins: "\<not> insertFails e" using run by (rule executeScoutAgent_Thrown(1))
  have "map ex_id (scout_executions (world s')) = map ex_id (scout_executions w) @ [newExecutionId w]"
    using run ins by (rule executeScoutAgent_rows(1))
  then have "newExecutionId w \<in> set (map ex_id (scout_executions (world s')))" by simp
  then show "\<exists>x\<in>set (scout_executions (world s')). ex_id x = newExecutionId w"
    by (simp add: image_iff) metis
  show "\<forall>x\<in>set (scout_executions (world s')). ex_id x = newExecutionId w \<longrightarrow>
            ex_status x = Failed \<and> ex_error_message x = Some (err_message err)"
    unfolding s' by (rule catchHandler_execution)
qed (auto simp: trackErrors_def tooManyErrors_def maxConsecutiveErrors_def show_nat_3 Let_def
          agentLoop_Thrown dest: runTool_hasError)

text \<open>
  Witness for C8: the third error throws, the second does not, a success resets; and the
  run on \<open>failingSearchEnv\<close> fails with the last search error.
\<close>

theorem consecutive_error_accounting_witness:
  "trackErrors baseEnv ''searchWeb'' \<lparr>arg_query = Some ''AI news'', arg_url = None, arg_limit = None, arg_tbs = None\<rparr>
     (Some (CaughtErr ''timeout'' None)) True ((initialState exampleWorld)\<lparr>consecutiveErrors := 2\<rparr>)
     = (Thrown (Error ''Too many consecutive tool errors (3). Last error: timeout''),
        (initialState exampleWorld)\<lparr>consecutiveErrors := 3\<rparr>)
   \<and> trackErrors baseEnv ''searchWeb'' \<lparr>arg_query = Some ''AI news'', arg_url = None, arg_limit = None, arg_tbs = None\<rparr>
     (Some (CaughtErr ''timeout'' None)) True ((initialState exampleWorld)\<lparr>consecutiveErrors := 1\<rparr>)
     = (Normal, (initialState exampleWorld)\<lparr>consecutiveErrors := 2\<rparr>)
   \<and> trackErrors baseEnv ''searchWeb'' \<lparr>arg_query = Some ''AI news'', arg_url = None, arg_limit = None, arg_tbs = None\<rparr>
     None False ((initialState exampleWorld)\<lparr>consecutiveErrors := 2\<rparr>)
     = (Normal, (initialState exampleWorld)\<lparr>consecutiveErrors := 0\<rparr>)
   \<and> (\<exists>x. x \<in> set (scout_executions (world (snd (executeScoutAgent failingSearchEnv exampleScout exampleWorld))))
          \<and> ex_status x = Failed
          \<and> ex_error_message x = Some (''Too many consecutive tool errors (3). Last error: ''
                                    @ ''Firecrawl search failed: 500 Internal Server Error - try later''))"
proof -
  let ?R = "executeScoutAgent failingSearchEnv exampleScout exampleWorld"
  let ?a = "\<lparr>arg_query = Some ''AI news'', arg_url = None, arg_limit = None, arg_tbs = None\<rparr>"
  let ?E = "Error (''Too many consecutive tool errors (3). Last error: ''
                                    @ ''Firecrawl search failed: 500 Internal Server Error - try later'')"
  have nb: "\<not> isBlacklistedError baseEnv ''searchWeb'' ?a"
    by (simp add: isBlacklistedError_def)
  have a: "trackErrors baseEnv ''searchWeb'' ?a (Some (CaughtErr ''timeout'' None)) True
             ((initialState exampleWorld)\<lparr>consecutiveErrors := 2\<rparr>)
     = (Thrown (Error ''Too many consecutive tool errors (3). Last error: timeout''),
        (initialState exampleWorld)\<lparr>consecutiveErrors := 3\<rparr>)"
    using nb consecutive_error_accounting[of True baseEnv "''searchWeb''" ?a "Some (CaughtErr ''timeout'' None)"
        "(initialState exampleWorld)\<lparr>consecutiveErrors := 2\<rparr>"]
    by (simp add: result_error_def show_opt_def initialState_def)
  have b: "trackErrors baseEnv ''searchWeb'' ?a (Some (CaughtErr ''timeout'' None)) True
             ((initialState exampleWorld)\<lparr>consecutiveErrors := 1\<rparr>)
     = (Normal, (initialState exampleWorld)\<lparr>consecutiveErrors := 2\<rparr>)"
    using nb consecutive_error_accounting[of True baseEnv "''searchWeb''" ?a "Some (CaughtErr ''timeout'' None)"
        "(initialState exampleWorld)\<lparr>consecutiveErrors := 1\<rparr>"]
    by (simp add: initialState_def)
  have c: "trackErrors baseEnv ''searchWeb'' ?a None False
             ((initialState exampleWorld)\<lparr>consecutiveErrors := 2\<rparr>)
     = (Normal, (initialState exampleWorld)\<lparr>consecutiveErrors := 0\<rparr>)"
    using consecutive_error_accounting[of False baseEnv "''searchWeb''" ?a None
        "(initialState exampleWorld)\<lparr>consecutiveErrors := 2\<rparr>"]
    by (simp add: initialState_def)
  have ev: "fst ?R = Thrown ?E"
    using failing_run by (simp add: case_prod_beta)
  then have run: "?R = (Thrown ?E, snd ?R)"
    by (simp add: prod_eq_iff)
  have "(\<exists>x\<in>set (scout_executions (world (snd ?R))). ex_id x = newExecutionId exampleWorld)
      \<and> (\<forall>x\<in>set (scout_executions (world (snd ?R))). ex_id x = newExecutionId exampleWorld \<longrightarrow>
            ex_status x = Failed \<and> ex_error_message x = Some (err_message ?E))"
    using run consecutive_error_accounting[where e=failingSearchEnv and scout=exampleScout
        and w=exampleWorld and err="?E" and s'="snd ?R"]
    by blast
  then have d: "\<exists>x. x \<in> set (scout_executions (world (snd ?R))) \<and> ex_status x = Failed
          \<and> ex_error_message x = Some (''Too many consecutive tool errors (3). Last error: ''
                                    @ ''Firecrawl search failed: 500 Internal Server Error - try later'')"
    by (auto simp: Error_def)
  from a b c d show ?thesis by blast
qed

section \<open>Parsing the final message\<close>




section \<open>The tools return their failures\<close>



end
